theory Spec2Isabelle
  imports Main "HOL-Library.Multiset" "HOL-Library.Sublist" "HOL-Library.Char_ord"
    "HOL-Library.List_Lexorder" "HOL-Library.Monad_Syntax"
begin

section \<open>Data model\<close>

text \<open>
  The petition dataset is a pandas DataFrame with the columns \<^verbatim>\<open>Petition\<close>,
  \<^verbatim>\<open>URL\<close>, \<^verbatim>\<open>State\<close> and \<^verbatim>\<open>Signatures Count\<close>. The loader
  (\<^verbatim>\<open>fetch_petition_data\<close>) coerces the text columns to \<^verbatim>\<open>str\<close> and the count to
  \<^verbatim>\<open>int\<close>. A frame is modelled as the list of its rows in positional order, and a row
  carries its index label next to the four columns: selecting, sorting and truncating
  keep the label of every row, \<^verbatim>\<open>reset_index(drop=True)\<close> replaces the labels by the
  positions, and \<^verbatim>\<open>generate_basic_analysis\<close> looks a row up by its label. Labels are
  integers, as the loader leaves them.

  Counts are integers. The one place where the source does arithmetic on them whose
  result is modelled is the column sum in \<^verbatim>\<open>generate_basic_analysis\<close>; the column is
  int64 and its sum wraps around, which \<open>int64\<close> writes out.

  Text is a list of characters with code points below 256 (the Latin-1 range of
  Unicode); case folding is what \<^verbatim>\<open>str.lower()\<close> and a search that ignores case do on
  that range.
\<close>

record row =
  Index :: int
  Petition :: string
  URL :: string
  State :: string
  Signatures_Count :: int

type_synonym DataFrame = "row list"

definition petition_record :: "row \<Rightarrow> string \<times> string \<times> string \<times> int" where
  \<comment> \<open>The four columns of a row, without its index label.\<close>
  "petition_record r = (Petition r, URL r, State r, Signatures_Count r)"

text \<open>
  A value decoded by \<^verbatim>\<open>json.loads\<close>: the model's reply and the filter dictionary in it
  are untyped. A dictionary is an association list, looked up from the front. JSON numbers
  with a fraction or an exponent (Python floats) are not represented.
\<close>

datatype pyval =
    PNone
  | PBool bool
  | PInt int
  | PStr string
  | PList "pyval list"
  | PDict "(string \<times> pyval) list"

text \<open>
  A call that raises is the value \<open>None\<close>. Every exception raised below derives from
  \<^verbatim>\<open>Exception\<close>, and the only handler that sees one
  (in \<^verbatim>\<open>process_natural_language_query\<close>) treats them all alike.
\<close>

definition get :: "pyval \<Rightarrow> string \<Rightarrow> pyval option" where
  \<comment> \<open>\<^verbatim>\<open>d.get(k)\<close>: the value, \<^verbatim>\<open>None\<close> for a missing key; raises (AttributeError)
      when \<open>d\<close> is not a dictionary.\<close>
  "get d k = (case d of
      PDict kvs \<Rightarrow> (case map_of kvs k of None \<Rightarrow> Some PNone | Some v \<Rightarrow> Some v)
    | _ \<Rightarrow> None)"

definition get_default :: "pyval \<Rightarrow> string \<Rightarrow> pyval \<Rightarrow> pyval option" where
  \<comment> \<open>\<^verbatim>\<open>d.get(k, default)\<close>\<close>
  "get_default d k dflt = (case d of
      PDict kvs \<Rightarrow> (case map_of kvs k of None \<Rightarrow> Some dflt | Some v \<Rightarrow> Some v)
    | _ \<Rightarrow> None)"

fun truthy :: "pyval \<Rightarrow> bool" where
  "truthy PNone = False"
| "truthy (PBool b) = b"
| "truthy (PInt n) = (n \<noteq> 0)"
| "truthy (PStr s) = (s \<noteq> [])"
| "truthy (PList xs) = (xs \<noteq> [])"
| "truthy (PDict kvs) = (kvs \<noteq> [])"

fun is_list :: "pyval \<Rightarrow> bool" where
  "is_list (PList xs) = True"
| "is_list v = False"

fun is_dict :: "pyval \<Rightarrow> bool" where
  "is_dict (PDict kvs) = True"
| "is_dict v = False"

fun items :: "pyval \<Rightarrow> pyval list" where
  \<comment> \<open>The elements of a value that is a list.\<close>
  "items (PList xs) = xs"
| "items v = []"

fun is_str :: "pyval \<Rightarrow> bool" where
  "is_str (PStr s) = True"
| "is_str v = False"

definition field :: "pyval \<Rightarrow> string \<Rightarrow> pyval" where
  \<comment> \<open>The value a dictionary holds under a key, \<open>PNone\<close> when it holds none.\<close>
  "field d k = (case get d k of Some v \<Rightarrow> v | None \<Rightarrow> PNone)"

subsection \<open>Strings\<close>

definition lower_char :: "char \<Rightarrow> char" where
  \<comment> \<open>The letters \<^verbatim>\<open>A\<close> to \<^verbatim>\<open>Z\<close> (65 to 90) and the accented capitals 192 to 222
      (215, the multiplication sign, is no letter) have their small letter 32 places
      further; no other code point below 256 changes.\<close>
  "lower_char c =
     (if (65 \<le> (of_char c :: nat) \<and> (of_char c :: nat) \<le> 90)
         \<or> (192 \<le> (of_char c :: nat) \<and> (of_char c :: nat) \<le> 222 \<and> (of_char c :: nat) \<noteq> 215)
      then char_of (of_char c + (32::nat)) else c)"

definition lower :: "string \<Rightarrow> string" where
  \<comment> \<open>\<^verbatim>\<open>str.lower()\<close>\<close>
  "lower s = map lower_char s"

fun startswith :: "string \<Rightarrow> string \<Rightarrow> bool" where
  "startswith s [] = True"
| "startswith [] (p # ps) = False"
| "startswith (c # cs) (p # ps) = (c = p \<and> startswith cs ps)"

fun str_in :: "string \<Rightarrow> string \<Rightarrow> bool" where
  \<comment> \<open>\<^verbatim>\<open>sub in s\<close> on strings: \<open>sub\<close> occurs in \<open>s\<close> as a contiguous run.\<close>
  "str_in sub [] = (sub = [])"
| "str_in sub (c # cs) = (startswith (c # cs) sub \<or> str_in sub cs)"

definition contains_nocase :: "string \<Rightarrow> string \<Rightarrow> bool" where
  \<comment> \<open>One cell of \<^verbatim>\<open>Series.str.contains(pat, case=False, na=False)\<close> when \<open>pat\<close> is a
      literal: a search that ignores case. On the Latin-1 range two characters match
      under \<^verbatim>\<open>re.IGNORECASE\<close> exactly when their small letters are equal.\<close>
  "contains_nocase s pat = str_in (lower pat) (lower s)"

subsection \<open>What is left to the library\<close>

text \<open>
  Two things that pandas computes are not fixed by the source, and are parameters of the
  model.

  Every sort in the source is \<^verbatim>\<open>DataFrame.sort_values(column, ascending=...)\<close> with no
  \<^verbatim>\<open>kind\<close> argument, so pandas takes its default \<^verbatim>\<open>kind='quicksort'\<close>. For that
  kind the library promises the rows of the frame back, ordered by the column; it does
  not promise the order of rows whose keys are equal (only \<^verbatim>\<open>'mergesort'\<close> and
  \<^verbatim>\<open>'stable'\<close> do). \<open>sort_values_ok\<close> is what the library promises.

  The comparisons \<^verbatim>\<open>series >= v\<close> and \<^verbatim>\<open>series <= v\<close> are made with a value \<open>v\<close> of the
  filter dictionary that the source checks for nothing but \<^verbatim>\<open>None\<close>. When \<open>v\<close> is an
  integer every cell is compared with it. What the library does with any other operand
  (it may raise, or convert the operand and compare cell by cell) is \<open>compare_other\<close>,
  of which nothing is assumed.
\<close>

record pandas =
  sort_values :: "(row \<Rightarrow> row \<Rightarrow> bool) \<Rightarrow> DataFrame \<Rightarrow> DataFrame"
  compare_other :: "(int \<Rightarrow> int \<Rightarrow> bool) \<Rightarrow> int list \<Rightarrow> pyval \<Rightarrow> bool list option"

definition by_signatures_desc :: "row \<Rightarrow> row \<Rightarrow> bool" where
  "by_signatures_desc a b = (Signatures_Count a \<ge> Signatures_Count b)"

definition by_signatures_asc :: "row \<Rightarrow> row \<Rightarrow> bool" where
  "by_signatures_asc a b = (Signatures_Count a \<le> Signatures_Count b)"

definition by_petition_asc :: "row \<Rightarrow> row \<Rightarrow> bool" where
  "by_petition_asc a b = (Petition a \<le> Petition b)"

definition sort_values_ok :: "pandas \<Rightarrow> bool" where
  "sort_values_ok pd =
     (\<forall>le xs. mset (sort_values pd le xs) = mset xs \<and>
        ((\<forall>a b. le a b \<or> le b a) \<and> (\<forall>a b c. le a b \<longrightarrow> le b c \<longrightarrow> le a c)
           \<longrightarrow> sorted_wrt le (sort_values pd le xs)))"

text \<open>
  The examples are evaluated with a library whose sort is an insertion sort and which
  refuses every operand that is not an integer (no example has one).
\<close>

fun insert_by :: "(row \<Rightarrow> row \<Rightarrow> bool) \<Rightarrow> row \<Rightarrow> DataFrame \<Rightarrow> DataFrame" where
  "insert_by le x [] = [x]"
| "insert_by le x (y # ys) = (if le x y then x # y # ys else y # insert_by le x ys)"

definition stable_sort :: "(row \<Rightarrow> row \<Rightarrow> bool) \<Rightarrow> DataFrame \<Rightarrow> DataFrame" where
  "stable_sort le xs = foldr (insert_by le) xs []"

definition stable_pandas :: pandas where
  "stable_pandas = \<lparr> sort_values = stable_sort, compare_other = (\<lambda>cmp col v. None) \<rparr>"

section \<open>The fallback interpreter\<close>

subsection \<open>\<^verbatim>\<open>generate_basic_analysis\<close>\<close>

text \<open>
  The function returns a fixed sentence for an empty frame and otherwise a report whose
  numbers are computed from the frame. The model keeps, in the order of the text, the
  number of petitions, the total of the counts, the title of the most signed petition
  (its first 100 characters) with its count, and the choice of the closing remark. The
  layout of the text is left out, and so are the mean and the most common state, which
  the report also prints.
\<close>

datatype remark = Highly_successful | Notable_interest | Niche_concerns

datatype analysis =
    Text string
  | No_content
  | Report nat int string int remark

definition int64 :: "int \<Rightarrow> int" where
  \<comment> \<open>The value an int64 holds after arithmetic whose exact result is \<open>n\<close>.\<close>
  "int64 n = (n + 2 ^ 63) mod 2 ^ 64 - 2 ^ 63"

fun idxmax :: "DataFrame \<Rightarrow> row \<Rightarrow> row" where
  \<comment> \<open>The first row with the largest count (\<^verbatim>\<open>Series.idxmax()\<close> gives its label); the
      second argument is the best row so far.\<close>
  "idxmax [] best = best"
| "idxmax (r # rs) best =
     idxmax rs (if Signatures_Count r > Signatures_Count best then r else best)"

definition loc :: "DataFrame \<Rightarrow> int \<Rightarrow> row option" where
  \<comment> \<open>\<^verbatim>\<open>df.loc[label]\<close> as the report uses it. When one row has the label the result is
      that row. When several rows have it the result is a frame of them, and formatting
      its count column with \<^verbatim>\<open>:,\<close> raises (TypeError).\<close>
  "loc df label = (case filter (\<lambda>r. Index r = label) df of [r] \<Rightarrow> Some r | _ \<Rightarrow> None)"

definition generate_basic_analysis :: "DataFrame \<Rightarrow> analysis option" where
  "generate_basic_analysis df =
     (case df of
        [] \<Rightarrow> Some (Text ''No petitions found matching your criteria.'')
      | r # rs \<Rightarrow>
          (let total_petitions = length df;
               total_signatures = int64 (sum_list (map Signatures_Count df))
           in do {
             top_petition \<leftarrow> loc df (Index (idxmax rs r));
             Some (Report total_petitions total_signatures
                     (take 100 (Petition top_petition)) (Signatures_Count top_petition)
                     (if total_signatures > 1000000 then Highly_successful
                      else if total_signatures > 100000 then Notable_interest
                      else Niche_concerns))
           }))"

subsection \<open>\<^verbatim>\<open>fallback_query_processing\<close>\<close>

record result_bundle =
  interpretation_text :: pyval
  filtered_data :: DataFrame
  analysis :: analysis
  raw_ai_response :: "pyval option"
  error :: bool

text \<open>
  The result dictionary. \<open>raw_ai_response\<close> is \<open>None\<close> when the key is absent. \<open>error\<close>
  says whether the key \<^verbatim>\<open>error\<close> is present; its text is the fixed prefix
  \<^verbatim>\<open>AI processing failed, using fallback:\<close> followed by the message of the exception.
\<close>

fun digits :: "nat \<Rightarrow> string" where
  "digits n = (if n < 10 then [char_of (48 + n)]
               else digits (n div 10) @ [char_of (48 + n mod 10)])"

fun group3 :: "string \<Rightarrow> string" where
  \<comment> \<open>Commas between groups of three, on the reversed digits.\<close>
  "group3 (a # b # c # d # ds) = a # b # c # CHR '','' # group3 (d # ds)"
| "group3 ds = ds"

definition fmt_thousands :: "nat \<Rightarrow> string" where
  \<comment> \<open>\<^verbatim>\<open>f"{n:,}"\<close> for a non-negative integer\<close>
  "fmt_thousands n = rev (group3 (rev (digits n)))"

definition signature_keywords :: "(string \<times> nat option) list" where
  "signature_keywords =
     [(''high'', Some 100000), (''popular'', Some 50000), (''most'', None), (''top'', None),
      (''over 100k'', Some 100000), (''above 50k'', Some 50000), (''more than'', None)]"

fun signature_scan ::
  "(string \<times> nat option) list \<Rightarrow> string \<Rightarrow> DataFrame \<times> string \<Rightarrow> DataFrame \<times> string" where
  \<comment> \<open>The loop over \<^verbatim>\<open>signature_keywords.items()\<close>, leaving at the first phrase that is in
      the query and has a threshold.\<close>
  "signature_scan [] query_lower (filtered_df, interp) = (filtered_df, interp)"
| "signature_scan ((keyword, threshold) # rest) query_lower (filtered_df, interp) =
     (case threshold of
        Some t \<Rightarrow>
          if str_in keyword query_lower \<and> t \<noteq> 0
          then (filter (\<lambda>r. Signatures_Count r \<ge> int t) filtered_df,
                interp @ '' (filtered for signatures >= '' @ fmt_thousands t @ '')'')
          else signature_scan rest query_lower (filtered_df, interp)
      | None \<Rightarrow> signature_scan rest query_lower (filtered_df, interp))"

definition state_step :: "string \<Rightarrow> DataFrame \<times> string \<Rightarrow> DataFrame \<times> string" where
  "state_step query_lower fi =
     (case fi of (filtered_df, interp) \<Rightarrow>
        if str_in ''closed'' query_lower
        then (filter (\<lambda>r. lower (State r) = ''closed'') filtered_df,
              interp @ '' (filtered for closed petitions)'')
        else if str_in ''rejected'' query_lower
        then (filter (\<lambda>r. lower (State r) = ''rejected'') filtered_df,
              interp @ '' (filtered for rejected petitions)'')
        else if str_in ''open'' query_lower
        then (filter (\<lambda>r. lower (State r) = ''open'') filtered_df,
              interp @ '' (filtered for open petitions)'')
        else (filtered_df, interp))"

definition topic_keywords :: "string list" where
  "topic_keywords =
     [''health'', ''nhs'', ''education'', ''school'', ''tax'', ''brexit'', ''eu'',
      ''environment'', ''climate'', ''transport'', ''housing'', ''benefit'', ''pension'',
      ''immigration'']"

fun topic_scan :: "string list \<Rightarrow> string \<Rightarrow> DataFrame \<times> string \<Rightarrow> DataFrame \<times> string" where
  "topic_scan [] query_lower (filtered_df, interp) = (filtered_df, interp)"
| "topic_scan (keyword # rest) query_lower (filtered_df, interp) =
     (if str_in keyword query_lower
      then (filter (\<lambda>r. contains_nocase (Petition r) keyword) filtered_df,
            interp @ '' (filtered for '' @ [CHR 0x27] @ keyword @ [CHR 0x27] @ '' in title)'')
      else topic_scan rest query_lower (filtered_df, interp))"

definition before_return :: "pandas \<Rightarrow> string \<Rightarrow> DataFrame \<Rightarrow> DataFrame \<times> string" where
  \<comment> \<open>\<^verbatim>\<open>filtered_df\<close> and \<^verbatim>\<open>interpretation\<close> when control reaches the \<^verbatim>\<open>return\<close> of
      \<^verbatim>\<open>fallback_query_processing\<close>.\<close>
  "before_return pd query df =
     (let query_lower = lower query;
          start = (df, ''Processed query using keyword matching: '' @ [CHR 0x27] @ query @ [CHR 0x27]);
          (f1, i1) = signature_scan signature_keywords query_lower start;
          (f2, i2) = state_step query_lower (f1, i1);
          (f3, i3) = topic_scan topic_keywords query_lower (f2, i2);
          f4 = sort_values pd by_signatures_desc f3
      in if list_ex (\<lambda>word. str_in word query_lower) [''top'', ''most'', ''highest'']
         then (take 20 f4, i3 @ '' (showing top 20 results)'')
         else (f4, i3))"

definition fallback_query_processing :: "pandas \<Rightarrow> string \<Rightarrow> DataFrame \<Rightarrow> result_bundle option" where
  \<comment> \<open>\<open>None\<close> when \<^verbatim>\<open>generate_basic_analysis\<close>, called in the \<^verbatim>\<open>return\<close>, raises.\<close>
  "fallback_query_processing pd query df =
     (case before_return pd query df of
        (filtered_df, interp) \<Rightarrow>
          do {
            a \<leftarrow> generate_basic_analysis filtered_df;
            Some \<lparr> interpretation_text = PStr interp, filtered_data = filtered_df,
                   analysis = a, raw_ai_response = None, error = False \<rparr>
          })"

section \<open>The filter engine: \<^verbatim>\<open>apply_filters\<close>\<close>

subsection \<open>Comparing the count column with a value of the filter dictionary\<close>

definition compare_series ::
  "pandas \<Rightarrow> (int \<Rightarrow> int \<Rightarrow> bool) \<Rightarrow> int list \<Rightarrow> pyval \<Rightarrow> bool list option" where
  \<comment> \<open>\<^verbatim>\<open>series >= v\<close> and \<^verbatim>\<open>series <= v\<close> on the count column.\<close>
  "compare_series pd cmp col v =
     (case v of
        PInt n \<Rightarrow> Some (map (\<lambda>s. cmp s n) col)
      | _ \<Rightarrow> compare_other pd cmp col v)"

definition select_rows :: "DataFrame \<Rightarrow> bool list \<Rightarrow> DataFrame" where
  \<comment> \<open>\<^verbatim>\<open>df[mask]\<close>\<close>
  "select_rows df keep = map fst (filter snd (zip df keep))"

definition at_least :: "pandas \<Rightarrow> pyval \<Rightarrow> DataFrame \<Rightarrow> DataFrame option" where
  \<comment> \<open>\<^verbatim>\<open>filtered_df[filtered_df['Signatures Count'] >= v]\<close>\<close>
  "at_least pd v filtered_df =
     map_option (select_rows filtered_df)
       (compare_series pd (\<lambda>s n. s \<ge> n) (map Signatures_Count filtered_df) v)"

definition at_most :: "pandas \<Rightarrow> pyval \<Rightarrow> DataFrame \<Rightarrow> DataFrame option" where
  \<comment> \<open>\<^verbatim>\<open>filtered_df[filtered_df['Signatures Count'] <= v]\<close>\<close>
  "at_most pd v filtered_df =
     map_option (select_rows filtered_df)
       (compare_series pd (\<lambda>s n. s \<le> n) (map Signatures_Count filtered_df) v)"

fun str_lower :: "pyval \<Rightarrow> string option" where
  \<comment> \<open>\<^verbatim>\<open>state.lower()\<close>: only a string has the method.\<close>
  "str_lower (PStr s) = Some (lower s)"
| "str_lower v = None"

fun re_escape :: "pyval \<Rightarrow> string option" where
  \<comment> \<open>\<^verbatim>\<open>re.escape(keyword)\<close> raises on anything but text; the escaped pattern matches
      the keyword as literal text, and the model keeps that text.\<close>
  "re_escape (PStr s) = Some s"
| "re_escape v = None"

definition state_isin :: "pyval list \<Rightarrow> DataFrame \<Rightarrow> DataFrame option" where
  \<comment> \<open>The two lines under \<^verbatim>\<open># Case-insensitive state matching\<close>.\<close>
  "state_isin states filtered_df =
     do {
       states_lower \<leftarrow> those (map str_lower states);
       Some (filter (\<lambda>r. lower (State r) \<in> set states_lower) filtered_df)
     }"

definition title_contains :: "pyval list \<Rightarrow> DataFrame \<Rightarrow> DataFrame option" where
  \<comment> \<open>The pattern is the alternation of the escaped keywords, searched ignoring case: a
      title matches when one of the keywords occurs in it.\<close>
  "title_contains keywords filtered_df =
     do {
       pattern \<leftarrow> those (map re_escape keywords);
       Some (filter (\<lambda>r. list_ex (contains_nocase (Petition r)) pattern) filtered_df)
     }"

definition sort_by_column :: "pandas \<Rightarrow> pyval \<Rightarrow> DataFrame \<Rightarrow> DataFrame" where
  \<comment> \<open>The \<^verbatim>\<open>if\<close>/\<^verbatim>\<open>elif\<close> chain under \<^verbatim>\<open># Apply sorting\<close>, for a \<open>sort_by\<close>
      that names one of the three orders.\<close>
  "sort_by_column pd sort_by filtered_df =
     (if sort_by = PStr ''signatures_desc'' then sort_values pd by_signatures_desc filtered_df
      else if sort_by = PStr ''signatures_asc'' then sort_values pd by_signatures_asc filtered_df
      else sort_values pd by_petition_asc filtered_df)"

definition names_order :: "pyval \<Rightarrow> bool" where
  "names_order sort_by =
     (sort_by = PStr ''signatures_desc'' \<or> sort_by = PStr ''signatures_asc''
      \<or> sort_by = PStr ''alphabetical'')"

fun is_int :: "pyval \<Rightarrow> bool" where
  \<comment> \<open>\<^verbatim>\<open>isinstance(v, int)\<close>; \<^verbatim>\<open>bool\<close> is a subclass of \<^verbatim>\<open>int\<close>.\<close>
  "is_int (PInt n) = True"
| "is_int (PBool b) = True"
| "is_int v = False"

fun positive :: "pyval \<Rightarrow> bool" where
  \<comment> \<open>\<^verbatim>\<open>v > 0\<close>, asked only of an \<^verbatim>\<open>int\<close>\<close>
  "positive (PInt n) = (n > 0)"
| "positive (PBool b) = b"
| "positive v = False"

fun head :: "pyval \<Rightarrow> DataFrame \<Rightarrow> DataFrame option" where
  \<comment> \<open>\<^verbatim>\<open>df.head(n)\<close> is \<^verbatim>\<open>df.iloc[:n]\<close>; the positional slice refuses a \<^verbatim>\<open>bool\<close>.\<close>
  "head (PInt n) df = Some (if n \<ge> 0 then take (nat n) df else take (nat (int (length df) + n)) df)"
| "head v df = None"

definition reset_index :: "DataFrame \<Rightarrow> DataFrame" where
  \<comment> \<open>\<^verbatim>\<open>reset_index(drop=True)\<close>: the rows in their order, labelled by their positions.\<close>
  "reset_index df = map (\<lambda>(i, r). r \<lparr> Index := int i \<rparr>) (enumerate 0 df)"

subsection \<open>The steps, in the order of the source\<close>

definition signature_min_step :: "pandas \<Rightarrow> pyval \<Rightarrow> DataFrame \<Rightarrow> DataFrame option" where
  "signature_min_step pd filters filtered_df =
     do {
       v \<leftarrow> get filters ''signature_min'';
       if v \<noteq> PNone then at_least pd v filtered_df else Some filtered_df
     }"

definition signature_max_step :: "pandas \<Rightarrow> pyval \<Rightarrow> DataFrame \<Rightarrow> DataFrame option" where
  "signature_max_step pd filters filtered_df =
     do {
       v \<leftarrow> get filters ''signature_max'';
       if v \<noteq> PNone then at_most pd v filtered_df else Some filtered_df
     }"

definition states_step :: "pyval \<Rightarrow> DataFrame \<Rightarrow> DataFrame option" where
  "states_step filters filtered_df =
     do {
       v \<leftarrow> get filters ''states'';
       if truthy v \<and> is_list v
       then state_isin (items v) filtered_df
       else Some filtered_df
     }"

definition keywords_step :: "pyval \<Rightarrow> DataFrame \<Rightarrow> DataFrame option" where
  "keywords_step filters filtered_df =
     do {
       v \<leftarrow> get filters ''keywords'';
       if truthy v \<and> is_list v
       then title_contains (items v) filtered_df
       else Some filtered_df
     }"

definition sort_step :: "pandas \<Rightarrow> pyval \<Rightarrow> DataFrame \<Rightarrow> DataFrame option" where
  "sort_step pd filters filtered_df =
     do {
       sort_by \<leftarrow> get_default filters ''sort_by'' (PStr ''signatures_desc'');
       if names_order sort_by then Some (sort_by_column pd sort_by filtered_df)
       else Some filtered_df
     }"

definition limit_step :: "pyval \<Rightarrow> DataFrame \<Rightarrow> DataFrame option" where
  "limit_step filters filtered_df =
     do {
       v \<leftarrow> get filters ''limit'';
       if truthy v \<and> is_int v \<and> positive v then head v filtered_df
       else Some filtered_df
     }"

definition before_sort :: "pandas \<Rightarrow> DataFrame \<Rightarrow> pyval \<Rightarrow> DataFrame option" where
  \<comment> \<open>\<^verbatim>\<open>filtered_df\<close> when control reaches the comment \<^verbatim>\<open># Apply sorting\<close>.\<close>
  "before_sort pd df filters =
     do {
       f1 \<leftarrow> signature_min_step pd filters df;
       f2 \<leftarrow> signature_max_step pd filters f1;
       f3 \<leftarrow> states_step filters f2;
       keywords_step filters f3
     }"

definition before_limit :: "pandas \<Rightarrow> DataFrame \<Rightarrow> pyval \<Rightarrow> DataFrame option" where
  \<comment> \<open>\<^verbatim>\<open>filtered_df\<close> when control reaches the comment \<^verbatim>\<open># Apply limit\<close>.\<close>
  "before_limit pd df filters =
     do {
       f4 \<leftarrow> before_sort pd df filters;
       sort_step pd filters f4
     }"

definition apply_filters :: "pandas \<Rightarrow> DataFrame \<Rightarrow> pyval \<Rightarrow> DataFrame option" where
  \<comment> \<open>An empty frame is returned as it is, before anything else is looked at.\<close>
  "apply_filters pd df filters =
     (if df = [] then Some df
      else do {
        f5 \<leftarrow> before_limit pd df filters;
        f6 \<leftarrow> limit_step filters f5;
        Some (reset_index f6)
      })"

subsection \<open>What a filter dictionary asks of a row\<close>

text \<open>
  The conditions below are written from the meaning of the fields, one row at a time;
  the lemmas of the last section relate them to the steps above.
\<close>

definition passes_states :: "pyval \<Rightarrow> row \<Rightarrow> bool" where
  "passes_states v r =
     (if truthy v \<and> is_list v
      then list_ex (\<lambda>x. str_lower x = Some (lower (State r))) (items v)
      else True)"

definition passes_keywords :: "pyval \<Rightarrow> row \<Rightarrow> bool" where
  "passes_keywords v r =
     (if truthy v \<and> is_list v
      then list_ex (\<lambda>x. case x of PStr t \<Rightarrow> contains_nocase (Petition r) t | _ \<Rightarrow> False) (items v)
      else True)"

definition text_list :: "pyval \<Rightarrow> bool" where
  \<comment> \<open>Not a list, or a list of strings.\<close>
  "text_list v = list_all is_str (items v)"

definition limit_set :: "pyval \<Rightarrow> bool" where
  \<comment> \<open>The guard of the limit step.\<close>
  "limit_set v = (truthy v \<and> is_int v \<and> positive v)"

section \<open>The query interpreter\<close>

text \<open>
  The two calls to the remote model are the only inputs of the interpreter besides the
  query and the frame. What a call gives back is a parameter: the prompt, built from the
  query and from \<^verbatim>\<open>generate_data_context\<close>, reaches nothing but the remote model, so it
  is not modelled. \<open>Content v\<close> is a reply whose text \<^verbatim>\<open>json.loads\<close> decodes to \<open>v\<close>.
\<close>

datatype model_reply =
    Call_raises
  | Content_missing
  | Content_invalid
  | Content pyval

datatype analysis_reply =
    Analysis_call_raises
  | Analysis_content "string option"

definition generate_analysis :: "analysis_reply \<Rightarrow> DataFrame \<Rightarrow> analysis option" where
  \<comment> \<open>\<open>Analysis_call_raises\<close> stands for any exception in the \<^verbatim>\<open>try\<close> of the function;
      its handler returns \<^verbatim>\<open>generate_basic_analysis(filtered_df)\<close>, and raises when that
      call does.\<close>
  "generate_analysis areply filtered_df =
     (if filtered_df = [] then Some (Text ''No petitions found matching the specified criteria.'')
      else (case areply of
              Analysis_call_raises \<Rightarrow> generate_basic_analysis filtered_df
            | Analysis_content None \<Rightarrow> Some No_content
            | Analysis_content (Some s) \<Rightarrow> Some (Text s)))"

definition try_block ::
  "pandas \<Rightarrow> model_reply \<Rightarrow> analysis_reply \<Rightarrow> DataFrame \<Rightarrow> result_bundle option" where
  \<comment> \<open>The body of \<^verbatim>\<open>try\<close>; \<open>None\<close> when it raises.\<close>
  "try_block pd reply areply df =
     (case reply of
        Call_raises \<Rightarrow> None
      | Content_missing \<Rightarrow> None
      | Content_invalid \<Rightarrow> None
      | Content ai_response \<Rightarrow>
          do {
            filters \<leftarrow> get_default ai_response ''filters'' (PDict []);
            filtered_df \<leftarrow> apply_filters pd df filters;
            analysis_request \<leftarrow> get_default ai_response ''analysis_request'' (PStr []);
            a \<leftarrow> generate_analysis areply filtered_df;
            interp \<leftarrow> get_default ai_response ''interpretation'' (PStr ''Query processed'');
            Some \<lparr> interpretation_text = interp, filtered_data = filtered_df,
                   analysis = a, raw_ai_response = Some ai_response, error = False \<rparr>
          })"

definition process_natural_language_query ::
  "pandas \<Rightarrow> model_reply \<Rightarrow> analysis_reply \<Rightarrow> string \<Rightarrow> DataFrame \<Rightarrow> result_bundle option" where
  \<comment> \<open>\<open>None\<close> when the call raises to its caller: the handler has no handler around it.\<close>
  "process_natural_language_query pd reply areply query df =
     (case try_block pd reply areply df of
        Some result \<Rightarrow> Some result
      | None \<Rightarrow>
          do {
            fallback_result \<leftarrow> fallback_query_processing pd query df;
            Some (fallback_result \<lparr> error := True \<rparr>)
          })"

section \<open>Frames as objects\<close>
















definition del_key :: "string \<Rightarrow> pyval \<Rightarrow> pyval" where
  \<comment> \<open>The dictionary without a key; any other value as it is.\<close>
  "del_key k d = (case d of PDict kvs \<Rightarrow> PDict (filter (\<lambda>kv. fst kv \<noteq> k) kvs) | _ \<Rightarrow> d)"

definition sort_by_of :: "pyval \<Rightarrow> pyval" where
  \<comment> \<open>\<^verbatim>\<open>filters.get('sort_by', 'signatures_desc')\<close> of a dictionary.\<close>
  "sort_by_of filters =
     (case get_default filters ''sort_by'' (PStr ''signatures_desc'') of
        Some v \<Rightarrow> v | None \<Rightarrow> PNone)"

section \<open>Sample data\<close>

definition nhs_petition :: row where
  "nhs_petition = \<lparr> Index = 0, Petition = ''Fund the NHS properly'',
     URL = ''https://petition.parliament.uk/petitions/1'', State = ''closed'',
     Signatures_Count = 120000 \<rparr>"

definition fireworks_petition :: row where
  "fireworks_petition = \<lparr> Index = 1, Petition = ''Ban fireworks'',
     URL = ''https://petition.parliament.uk/petitions/2'', State = ''open'',
     Signatures_Count = 120000 \<rparr>"

definition health_petition :: row where
  "health_petition = \<lparr> Index = 2, Petition = ''Improve mental HEALTH services'',
     URL = ''https://petition.parliament.uk/petitions/3'', State = ''Closed'',
     Signatures_Count = 45000 \<rparr>"

definition closed_query :: string where
  "closed_query = ''closed petitions''"

definition healthcare_query :: string where
  "healthcare_query = ''Show closed petitions about healthcare''"

section \<open>Properties\<close>

subsection \<open>Sorting\<close>

lemma mset_insert_by: "mset (insert_by le x xs) = add_mset x (mset xs)"
  by (induction xs) auto

lemma set_insert_by: "set (insert_by le x xs) = insert x (set xs)"
  by (induction xs) auto

lemma sorted_insert_by:
  assumes tot: "\<And>a b. le a b \<or> le b a" and tr: "\<And>a b c. le a b \<Longrightarrow> le b c \<Longrightarrow> le a c"
  shows "sorted_wrt le xs \<Longrightarrow> sorted_wrt le (insert_by le x xs)"
proof (induction xs)
  case Nil
  then show ?case by simp
next
  case (Cons y ys)
  show ?case
  proof (cases "le x y")
    case True
    with Cons.prems tr show ?thesis by auto
  next
    case False
    with tot have "le y x" by blast
    with Cons False show ?thesis by (auto simp: set_insert_by)
  qed
qed

lemma mset_stable_sort: "mset (stable_sort le xs) = mset xs"
  by (induction xs) (auto simp: stable_sort_def mset_insert_by)

lemma sorted_stable_sort:
  assumes tot: "\<And>a b. le a b \<or> le b a" and tr: "\<And>a b c. le a b \<Longrightarrow> le b c \<Longrightarrow> le a c"
  shows "sorted_wrt le (stable_sort le xs)"
proof (induction xs)
  case Nil
  then show ?case by (simp add: stable_sort_def)
next
  case (Cons x xs)
  have step: "stable_sort le (x # xs) = insert_by le x (stable_sort le xs)"
    by (simp add: stable_sort_def)
  show ?case unfolding step
  proof (rule sorted_insert_by)
    show "\<And>a b. le a b \<or> le b a" by (rule tot)
    show "\<And>a b c. le a b \<Longrightarrow> le b c \<Longrightarrow> le a c" by (rule tr)
    show "sorted_wrt le (stable_sort le xs)" by (rule Cons.IH)
  qed
qed

lemma sort_values_stable_pandas [simp]: "sort_values stable_pandas = stable_sort"
  by (simp add: stable_pandas_def)

lemma stable_pandas_ok: "sort_values_ok stable_pandas"
  unfolding sort_values_ok_def
  using mset_stable_sort sorted_stable_sort by (simp add: stable_pandas_def)

lemma mset_sort_values: "sort_values_ok pd \<Longrightarrow> mset (sort_values pd le xs) = mset xs"
  unfolding sort_values_ok_def by blast

lemma set_sort_values: "sort_values_ok pd \<Longrightarrow> set (sort_values pd le xs) = set xs"
  using mset_sort_values [of pd le xs] by (metis set_mset_mset)

lemma sorted_sort_values:
  assumes "sort_values_ok pd" and "\<And>a b. le a b \<or> le b a" and "\<And>a b c. le a b \<Longrightarrow> le b c \<Longrightarrow> le a c"
  shows "sorted_wrt le (sort_values pd le xs)"
  using assms unfolding sort_values_ok_def by blast

lemma sorted_by_signatures_desc:
  "sort_values_ok pd \<Longrightarrow> sorted_wrt by_signatures_desc (sort_values pd by_signatures_desc xs)"
  by (rule sorted_sort_values) (auto simp: by_signatures_desc_def)

lemma sorted_by_signatures_asc:
  "sort_values_ok pd \<Longrightarrow> sorted_wrt by_signatures_asc (sort_values pd by_signatures_asc xs)"
  by (rule sorted_sort_values) (auto simp: by_signatures_asc_def)

lemma sorted_by_petition_asc:
  "sort_values_ok pd \<Longrightarrow> sorted_wrt by_petition_asc (sort_values pd by_petition_asc xs)"
  by (rule sorted_sort_values) (auto simp: by_petition_asc_def)

lemma distinct_sort_values:
  assumes "sort_values_ok pd" and "distinct (map Index xs)"
  shows "distinct (map Index (sort_values pd le xs))"
proof -
  have "mset (map Index (sort_values pd le xs)) = mset (map Index xs)"
    using mset_sort_values [OF assms(1), of le xs] by simp
  then show ?thesis using assms(2) by (metis mset_eq_imp_distinct_iff)
qed

subsection \<open>Index labels\<close>

lemma filter_label:
  "distinct (map Index df) \<Longrightarrow> r \<in> set df \<Longrightarrow> filter (\<lambda>x. Index x = Index r) df = [r]"
proof (induction df)
  case Nil
  then show ?case by simp
next
  case (Cons a df)
  show ?case
  proof (cases "a = r")
    case True
    with Cons.prems have "Index r \<notin> Index ` set df" by simp
    then have "\<forall>x\<in>set df. Index x \<noteq> Index r" by (metis image_eqI)
    then have "filter (\<lambda>x. Index x = Index r) df = []" by (simp add: filter_empty_conv)
    with True show ?thesis by simp
  next
    case False
    with Cons.prems have r: "r \<in> set df" by simp
    with Cons.prems have "Index a \<noteq> Index r" by auto
    with Cons r show ?thesis by simp
  qed
qed

lemma loc_distinct: "distinct (map Index df) \<Longrightarrow> r \<in> set df \<Longrightarrow> loc df (Index r) = Some r"
  by (simp add: loc_def filter_label)

lemma idxmax_in: "idxmax rs best \<in> set (best # rs)"
  by (induction rs arbitrary: best) (auto split: if_splits)

lemma idxmax_best:
  "\<forall>x\<in>set rs. Signatures_Count x \<le> Signatures_Count best \<Longrightarrow> idxmax rs best = best"
  by (induction rs) auto

lemma idxmax_sorted: "sorted_wrt by_signatures_desc (r # rs) \<Longrightarrow> idxmax rs r = r"
  by (rule idxmax_best) (simp add: by_signatures_desc_def)

lemma generate_basic_analysis_returns:
  assumes "distinct (map Index df)"
  shows "\<exists>a. generate_basic_analysis df = Some a"
proof (cases df)
  case Nil
  then show ?thesis by (simp add: generate_basic_analysis_def)
next
  case (Cons r rs)
  have "idxmax rs r \<in> set df" using idxmax_in [of rs r] Cons by simp
  from loc_distinct [OF assms this] Cons show ?thesis
    by (simp add: generate_basic_analysis_def Let_def)
qed

lemma generate_basic_analysis_sorted:
  assumes "distinct (map Index (r # rs))" and "sorted_wrt by_signatures_desc (r # rs)"
  shows "generate_basic_analysis (r # rs) =
     Some (Report (length (r # rs)) (int64 (sum_list (map Signatures_Count (r # rs))))
             (take 100 (Petition r)) (Signatures_Count r)
             (if int64 (sum_list (map Signatures_Count (r # rs))) > 1000000 then Highly_successful
              else if int64 (sum_list (map Signatures_Count (r # rs))) > 100000 then Notable_interest
              else Niche_concerns))"
proof -
  have "loc (r # rs) (Index (idxmax rs r)) = Some r"
    unfolding idxmax_sorted [OF assms(2)] by (rule loc_distinct [OF assms(1)]) simp
  then show ?thesis by (simp add: generate_basic_analysis_def Let_def)
qed

lemma length_reset_index [simp]: "length (reset_index f) = length f"
  by (simp add: reset_index_def)

lemma reset_index_Nil [simp]: "reset_index [] = []"
  by (simp add: reset_index_def)

lemma reset_index_eq_Nil [simp]: "reset_index f = [] \<longleftrightarrow> f = []"
  using length_reset_index [of f] by (metis length_0_conv)

lemma map_Index_reset_index: "map Index (reset_index f) = map int [0..<length f]"
  by (simp add: reset_index_def enumerate_eq_zip split_beta map_zip_map2[symmetric] comp_def)
     (rule nth_equalityI; simp)

lemma distinct_reset_index: "distinct (map Index (reset_index f))"
  unfolding map_Index_reset_index by (simp add: distinct_map inj_on_def)

lemma petition_record_reset_index:
  "map petition_record (reset_index f) = map petition_record f"
  by (rule nth_equalityI) (simp_all add: reset_index_def enumerate_eq_zip petition_record_def split_beta)

lemma generate_analysis_returns:
  "distinct (map Index f) \<Longrightarrow> \<exists>a. generate_analysis areply f = Some a"
  using generate_basic_analysis_returns [of f]
  by (auto simp: generate_analysis_def split: analysis_reply.splits option.splits)

subsection \<open>The operations of the filter engine\<close>

lemma select_rows_map: "select_rows df (map P df) = filter P df"
  by (induction df) (auto simp: select_rows_def)

lemma is_str_iff: "is_str x \<longleftrightarrow> (\<exists>s. x = PStr s)"
  by (cases x) auto

lemma at_least_int:
  "at_least pd (PInt n) df = Some (filter (\<lambda>r. Signatures_Count r \<ge> n) df)"
  by (simp add: at_least_def compare_series_def select_rows_map comp_def)

lemma at_most_int:
  "at_most pd (PInt n) df = Some (filter (\<lambda>r. Signatures_Count r \<le> n) df)"
  by (simp add: at_most_def compare_series_def select_rows_map comp_def)

lemma those_map_Some:
  "those (map f xs) = Some ys \<Longrightarrow> ys = map (\<lambda>x. the (f x)) xs \<and> (\<forall>x\<in>set xs. f x \<noteq> None)"
  by (induction xs arbitrary: ys) (auto split: option.splits)

lemma those_map_defined:
  "(\<forall>x\<in>set xs. f x \<noteq> None) \<Longrightarrow> those (map f xs) = Some (map (\<lambda>x. the (f x)) xs)"
  by (induction xs) (auto split: option.splits)

lemma state_isin_Some:
  assumes "state_isin states df = Some out"
  shows "out = filter (\<lambda>r. list_ex (\<lambda>x. str_lower x = Some (lower (State r))) states) df"
proof -
  from assms obtain sl where sl: "those (map str_lower states) = Some sl"
    and out: "out = filter (\<lambda>r. lower (State r) \<in> set sl) df"
    by (auto simp: state_isin_def split: Option.bind_splits)
  from those_map_Some [OF sl] have "\<And>y. y \<in> set sl \<longleftrightarrow> (\<exists>x\<in>set states. str_lower x = Some y)"
    by force
  then show ?thesis unfolding out by (simp add: list_ex_iff)
qed

lemma title_contains_Some:
  assumes "title_contains keywords df = Some out"
  shows "out = filter (\<lambda>r. list_ex (\<lambda>x. case x of PStr t \<Rightarrow> contains_nocase (Petition r) t | _ \<Rightarrow> False) keywords) df"
proof -
  from assms obtain pat where pat: "those (map re_escape keywords) = Some pat"
    and out: "out = filter (\<lambda>r. list_ex (contains_nocase (Petition r)) pat) df"
    by (auto simp: title_contains_def split: Option.bind_splits)
  have esc: "\<And>x t. re_escape x = Some t \<longleftrightarrow> x = PStr t"
    by (case_tac x) auto
  from those_map_Some [OF pat] have "\<And>t. t \<in> set pat \<longleftrightarrow> (\<exists>x\<in>set keywords. re_escape x = Some t)"
    by force
  then have "\<And>t. t \<in> set pat \<longleftrightarrow> PStr t \<in> set keywords"
    by (simp add: esc)
  then have eq: "\<And>r. list_ex (contains_nocase (Petition r)) pat \<longleftrightarrow>
      list_ex (\<lambda>x. case x of PStr t \<Rightarrow> contains_nocase (Petition r) t | _ \<Rightarrow> False) keywords"
    unfolding list_ex_iff
    apply (intro iffI)
     apply force
    apply (erule bexE)
    subgoal for r x by (cases x) auto
    done
  show ?thesis unfolding out by (simp only: eq)
qed

lemma state_isin_defined:
  "list_all is_str states \<Longrightarrow> state_isin states df \<noteq> None"
proof -
  assume "list_all is_str states"
  then have "\<forall>x\<in>set states. str_lower x \<noteq> None"
    by (auto simp: list_all_iff is_str_iff)
  from those_map_defined [OF this] show ?thesis by (simp add: state_isin_def)
qed

lemma title_contains_defined:
  "list_all is_str keywords \<Longrightarrow> title_contains keywords df \<noteq> None"
proof -
  assume "list_all is_str keywords"
  then have "\<forall>x\<in>set keywords. re_escape x \<noteq> None"
    by (auto simp: list_all_iff is_str_iff)
  from those_map_defined [OF this] show ?thesis by (simp add: title_contains_def)
qed

subsection \<open>Case folding\<close>

lemma lower_examples:
  "lower ''Show CLOSED Petitions'' = ''show closed petitions''"
  "lower [CHR 0xC9, CHR ''t'', CHR 0xC9, CHR 0xD7, CHR 0xDF] = [CHR 0xE9, CHR ''t'', CHR 0xE9, CHR 0xD7, CHR 0xDF]"
  by code_simp+

subsection \<open>The fallback interpreter\<close>

lemma fallback_unfold:
  "fallback_query_processing pd query df =
     map_option (\<lambda>a. \<lparr> interpretation_text = PStr (snd (before_return pd query df)),
                       filtered_data = fst (before_return pd query df),
                       analysis = a, raw_ai_response = None, error = False \<rparr>)
       (generate_basic_analysis (fst (before_return pd query df)))"
  by (cases "generate_basic_analysis (fst (before_return pd query df))")
     (simp_all add: fallback_query_processing_def split_beta)

lemma fallback_filtered_data:
  "fallback_query_processing pd query df = Some result \<Longrightarrow>
     filtered_data result = fst (before_return pd query df)"
  by (auto simp: fallback_unfold)

lemma fallback_returns:
  "distinct (map Index (fst (before_return pd query df))) \<Longrightarrow>
     \<exists>result. fallback_query_processing pd query df = Some result"
  using generate_basic_analysis_returns [of "fst (before_return pd query df)"]
  by (auto simp: fallback_unfold)

lemma signature_scan_sublist:
  "mset (fst (signature_scan tbl q (f, i))) \<subseteq># mset f"
  by (induction tbl q "(f, i)" rule: signature_scan.induct) (auto split: option.splits)

lemma state_step_sublist: "mset (fst (state_step q (f, i))) \<subseteq># mset f"
  by (auto simp: state_step_def)

lemma topic_scan_sublist: "mset (fst (topic_scan ks q (f, i))) \<subseteq># mset f"
  by (induction ks q "(f, i)" rule: topic_scan.induct) auto

lemma before_return_frame:
  "fst (before_return pd query df) =
     (let f4 = sort_values pd by_signatures_desc
            (fst (topic_scan topic_keywords (lower query)
               (state_step (lower query)
                  (signature_scan signature_keywords (lower query)
                     (df, ''Processed query using keyword matching: '' @ [CHR 0x27] @ query @ [CHR 0x27])))))
      in if list_ex (\<lambda>word. str_in word (lower query)) [''top'', ''most'', ''highest'']
         then take 20 f4 else f4)"
  by (simp add: before_return_def Let_def split_beta)

lemma before_return_text: "\<exists>f s. before_return pd query df = (f, s)"
  by (cases "before_return pd query df") simp

lemma mset_take_subset: "mset (take n xs) \<subseteq># mset xs"
  by (metis append_take_drop_id mset_append mset_subset_eq_add_left)

lemma before_return_subset:
  assumes "sort_values_ok pd"
  shows "mset (fst (before_return pd query df)) \<subseteq># mset df"
proof -
  define i0 where "i0 = ''Processed query using keyword matching: '' @ [CHR 0x27] @ query @ [CHR 0x27]"
  define s1 where "s1 = signature_scan signature_keywords (lower query) (df, i0)"
  define s2 where "s2 = state_step (lower query) s1"
  define s3 where "s3 = topic_scan topic_keywords (lower query) s2"
  define f4 where "f4 = sort_values pd by_signatures_desc (fst s3)"
  have s1: "mset (fst s1) \<subseteq># mset df" unfolding s1_def by (rule signature_scan_sublist)
  have s2: "mset (fst s2) \<subseteq># mset (fst s1)"
    unfolding s2_def using state_step_sublist [of "lower query" "fst s1" "snd s1"] by simp
  have s3: "mset (fst s3) \<subseteq># mset (fst s2)"
    unfolding s3_def using topic_scan_sublist [of topic_keywords "lower query" "fst s2" "snd s2"] by simp
  have a: "mset (fst s3) \<subseteq># mset df"
    by (rule subset_mset.order_trans [OF s3 subset_mset.order_trans [OF s2 s1]])
  have b: "mset f4 = mset (fst s3)"
    unfolding f4_def by (rule mset_sort_values [OF assms])
  have t: "mset (take 20 f4) \<subseteq># mset f4" by (rule mset_take_subset)
  have c: "fst (before_return pd query df) = f4 \<or> fst (before_return pd query df) = take 20 f4"
    unfolding before_return_frame f4_def s3_def s2_def s1_def i0_def by (simp add: Let_def)
  then show ?thesis
  proof
    assume "fst (before_return pd query df) = f4"
    with a b show ?thesis by simp
  next
    assume e: "fst (before_return pd query df) = take 20 f4"
    from t b have "mset (take 20 f4) \<subseteq># mset (fst s3)" by simp
    from subset_mset.order_trans [OF this a] e show ?thesis by simp
  qed
qed

lemma before_return_sorted:
  assumes "sort_values_ok pd"
  shows "sorted_wrt by_signatures_desc (fst (before_return pd query df))"
  unfolding before_return_frame
  using sorted_by_signatures_desc [OF assms]
  by (auto simp: Let_def intro: sorted_wrt_take)

lemma signature_scan_distinct:
  "distinct (map Index f) \<Longrightarrow> distinct (map Index (fst (signature_scan tbl q (f, i))))"
  by (induction tbl q "(f, i)" rule: signature_scan.induct)
     (auto split: option.splits simp: distinct_map_filter)

lemma state_step_distinct:
  "distinct (map Index f) \<Longrightarrow> distinct (map Index (fst (state_step q (f, i))))"
  by (auto simp: state_step_def distinct_map_filter)

lemma topic_scan_distinct:
  "distinct (map Index f) \<Longrightarrow> distinct (map Index (fst (topic_scan ks q (f, i))))"
  by (induction ks q "(f, i)" rule: topic_scan.induct) (auto simp: distinct_map_filter)

lemma distinct_map_take: "distinct (map f xs) \<Longrightarrow> distinct (map f (take n xs))"
  by (simp add: take_map [symmetric])

lemma before_return_distinct:
  assumes "sort_values_ok pd" and "distinct (map Index df)"
  shows "distinct (map Index (fst (before_return pd query df)))"
proof -
  define i0 where "i0 = ''Processed query using keyword matching: '' @ [CHR 0x27] @ query @ [CHR 0x27]"
  define s1 where "s1 = signature_scan signature_keywords (lower query) (df, i0)"
  define s2 where "s2 = state_step (lower query) s1"
  define s3 where "s3 = topic_scan topic_keywords (lower query) s2"
  define f4 where "f4 = sort_values pd by_signatures_desc (fst s3)"
  have s1: "distinct (map Index (fst s1))"
    unfolding s1_def by (rule signature_scan_distinct [OF assms(2)])
  have s2: "distinct (map Index (fst s2))"
    unfolding s2_def using state_step_distinct [OF s1, of "lower query" "snd s1"] by simp
  have s3: "distinct (map Index (fst s3))"
    unfolding s3_def using topic_scan_distinct [OF s2, of topic_keywords "lower query" "snd s2"] by simp
  have f4: "distinct (map Index f4)"
    unfolding f4_def by (rule distinct_sort_values [OF assms(1) s3])
  have c: "fst (before_return pd query df) = f4 \<or> fst (before_return pd query df) = take 20 f4"
    unfolding before_return_frame f4_def s3_def s2_def s1_def i0_def by (simp add: Let_def)
  with f4 distinct_map_take [OF f4, of 20] show ?thesis by auto
qed

subsection \<open>The fallback interpreter on the healthcare query\<close>

lemma lower_healthcare_query: "lower healthcare_query = ''show closed petitions about healthcare''"
  by code_simp

lemma before_return_healthcare:
  "fst (before_return pd healthcare_query df) =
     sort_values pd by_signatures_desc
       (filter (\<lambda>r. lower (State r) = ''closed'' \<and> contains_nocase (Petition r) ''health'') df)"
  by (simp add: before_return_def lower_healthcare_query signature_keywords_def
        topic_keywords_def state_step_def Let_def)

lemma not_health_nhs: "\<not> contains_nocase ''Fund the NHS properly'' ''health''"
  by code_simp

lemma health_in_health: "contains_nocase (Petition health_petition) ''health''"
  by code_simp

lemma not_health_fireworks: "\<not> contains_nocase (Petition fireworks_petition) ''health''"
  by code_simp

lemma sample_states:
  "lower (State nhs_petition) = ''closed''" "lower (State health_petition) = ''closed''"
  "lower (State fireworks_petition) \<noteq> ''closed''"
  by code_simp+

lemma sample_labels:
  "distinct (map Index [nhs_petition, health_petition, fireworks_petition])"
  "distinct (map Index [nhs_petition, fireworks_petition])"
  by (simp_all add: nhs_petition_def health_petition_def fireworks_petition_def)

text \<open>
  Claim C1, as the code has it. On the query \<^verbatim>\<open>Show closed petitions about healthcare\<close>
  the fallback interpreter finds no signature phrase, finds \<^verbatim>\<open>closed\<close>, and finds the
  topic keyword \<^verbatim>\<open>health\<close> (the first of the list, inside \<^verbatim>\<open>healthcare\<close>). What it
  returns is the frame of the rows whose state is \<^verbatim>\<open>closed\<close> (ignoring case) and whose
  title contains \<^verbatim>\<open>health\<close> (ignoring case), sorted by signatures: exactly those rows,
  each as often as the dataset has it, in an order of descending counts. The title
  \<^verbatim>\<open>Fund the NHS properly\<close> does not contain \<^verbatim>\<open>health\<close>, so that petition is never
  in the result. The call returns whenever the index labels of the dataset are distinct.
\<close>

theorem fallback_closed_healthcare:
  assumes "sort_values_ok pd"
  shows "(\<forall>result. fallback_query_processing pd healthcare_query df = Some result \<longrightarrow>
            filtered_data result =
              sort_values pd by_signatures_desc
                (filter (\<lambda>r. lower (State r) = ''closed'' \<and> contains_nocase (Petition r) ''health'') df)
          \<and> mset (filtered_data result) =
              mset (filter (\<lambda>r. lower (State r) = ''closed'' \<and> contains_nocase (Petition r) ''health'') df)
          \<and> sorted_wrt by_signatures_desc (filtered_data result)
          \<and> (\<forall>r \<in> set (filtered_data result). Petition r \<noteq> ''Fund the NHS properly''))
       \<and> (distinct (map Index df) \<longrightarrow>
            (\<exists>result. fallback_query_processing pd healthcare_query df = Some result))"
proof (intro conjI allI impI)
  fix result
  assume r: "fallback_query_processing pd healthcare_query df = Some result"
  define sel where "sel = filter (\<lambda>r. lower (State r) = ''closed'' \<and> contains_nocase (Petition r) ''health'') df"
  have f: "filtered_data result = sort_values pd by_signatures_desc sel"
    unfolding sel_def using fallback_filtered_data [OF r] by (simp add: before_return_healthcare)
  then show "filtered_data result =
              sort_values pd by_signatures_desc
                (filter (\<lambda>r. lower (State r) = ''closed'' \<and> contains_nocase (Petition r) ''health'') df)"
    by (simp add: sel_def)
  have m: "mset (filtered_data result) = mset sel"
    unfolding f by (rule mset_sort_values [OF assms])
  then show "mset (filtered_data result) =
              mset (filter (\<lambda>r. lower (State r) = ''closed'' \<and> contains_nocase (Petition r) ''health'') df)"
    by (simp add: sel_def)
  show "sorted_wrt by_signatures_desc (filtered_data result)"
    unfolding f by (rule sorted_by_signatures_desc [OF assms])
  from m have "set (filtered_data result) = set sel" by (rule mset_eq_setD)
  then show "\<forall>r \<in> set (filtered_data result). Petition r \<noteq> ''Fund the NHS properly''"
    using not_health_nhs by (auto simp: sel_def)
next
  assume "distinct (map Index df)"
  then show "\<exists>result. fallback_query_processing pd healthcare_query df = Some result"
    by (intro fallback_returns before_return_distinct [OF assms])
qed

theorem fallback_closed_healthcare_witness:
  "sort_values_ok stable_pandas \<and>
   distinct (map Index [nhs_petition, health_petition, fireworks_petition]) \<and>
   map_option filtered_data (fallback_query_processing stable_pandas healthcare_query
      [nhs_petition, health_petition, fireworks_petition]) = Some [health_petition]"
proof -
  let ?df = "[nhs_petition, health_petition, fireworks_petition]"
  have s: "filter (\<lambda>r. lower (State r) = ''closed'' \<and> contains_nocase (Petition r) ''health'') ?df
             = [health_petition]"
    using not_health_nhs health_in_health not_health_fireworks sample_states
    by (simp add: nhs_petition_def)
  from fallback_closed_healthcare [OF stable_pandas_ok, of ?df] sample_labels(1)
  obtain result where r: "fallback_query_processing stable_pandas healthcare_query ?df = Some result"
    and f: "filtered_data result = sort_values stable_pandas by_signatures_desc
               (filter (\<lambda>r. lower (State r) = ''closed'' \<and> contains_nocase (Petition r) ''health'') ?df)"
    by blast
  from f have "filtered_data result = [health_petition]"
    unfolding s by (simp add: stable_sort_def)
  with r stable_pandas_ok sample_labels(1) show ?thesis by simp
qed

text \<open>
  Claim C1 as the specification states it fails: on the dataset of the two petitions it
  names, the fallback interpreter returns and its result is empty, so the first petition
  is not returned.
\<close>

theorem fallback_closed_healthcare_counterexample:
  "map_option filtered_data (fallback_query_processing stable_pandas healthcare_query
      [nhs_petition, fireworks_petition]) = Some []"
proof -
  have "fst (before_return stable_pandas healthcare_query [nhs_petition, fireworks_petition]) = []"
    using not_health_nhs not_health_fireworks
    by (simp add: before_return_healthcare stable_sort_def nhs_petition_def)
  then show ?thesis
    by (simp add: fallback_unfold generate_basic_analysis_def)
qed

subsection \<open>The filter engine\<close>

text \<open>
  Claim C6. On an empty dataset \<^verbatim>\<open>apply_filters\<close> returns the empty frame and does not
  raise, whatever the filter value is (the test \<^verbatim>\<open>df.empty\<close> comes before any use of
  the filters).
\<close>

theorem apply_filters_empty: "apply_filters pd [] filters = Some []"
  by (simp add: apply_filters_def)

subsection \<open>Reading the filter dictionary\<close>

lemma get_field: "get filters k = Some v \<Longrightarrow> field filters k = v"
  by (simp add: field_def)

lemma get_Some_dict: "get filters k = Some v \<Longrightarrow> \<exists>kvs. filters = PDict kvs"
  by (cases filters) (auto simp: get_def)

lemma get_dict: "get (PDict kvs) k = Some (field (PDict kvs) k)"
  by (simp add: get_def field_def split: option.splits)

lemma get_default_dict: "get_default (PDict kvs) k d \<noteq> None"
  by (simp add: get_default_def split: option.splits)

subsection \<open>The limit step\<close>

lemma limit_step_unset:
  "\<not> limit_set (field (PDict kvs) ''limit'') \<Longrightarrow> limit_step (PDict kvs) f = Some f"
  by (auto simp: limit_step_def get_dict limit_set_def)

lemma limit_step_int:
  "field (PDict kvs) ''limit'' = PInt k \<Longrightarrow> k > 0 \<Longrightarrow>
     limit_step (PDict kvs) f = Some (take (nat k) f)"
  by (simp add: limit_step_def get_dict)

lemma before_limit_dict: "before_limit pd df filters = Some pre \<Longrightarrow> \<exists>kvs. filters = PDict kvs"
  by (auto simp: before_limit_def before_sort_def signature_min_step_def
      split: Option.bind_splits dest: get_Some_dict)

text \<open>
  Claim C7. Let \<open>pre\<close> be the frame before the limit step (the dataset itself when it is
  empty, since the function then returns at once). If \<^verbatim>\<open>limit\<close> is absent (or null) or
  an integer \<open>k \<le> 0\<close>, \<^verbatim>\<open>apply_filters\<close> returns \<open>pre\<close> untruncated, with the index
  renumbered: the same records in the same order. If it is an integer \<open>k > 0\<close>, the
  result is the first \<open>k\<close> rows of \<open>pre\<close>, renumbered, so its length is
  \<open>min k (length pre)\<close>.
\<close>

theorem limit_truncation:
  assumes "(if df = [] then Some df else before_limit pd df filters) = Some pre"
  shows "((field filters ''limit'' = PNone \<or> (\<exists>k. field filters ''limit'' = PInt k \<and> k \<le> 0))
            \<longrightarrow> apply_filters pd df filters = Some (reset_index pre)
                \<and> map petition_record (reset_index pre) = map petition_record pre)
       \<and> (\<forall>k. field filters ''limit'' = PInt k \<and> k > 0 \<longrightarrow>
            (\<exists>out. apply_filters pd df filters = Some out \<and> out = reset_index (take (nat k) pre)
                  \<and> map petition_record out = take (nat k) (map petition_record pre)
                  \<and> int (length out) = min k (int (length pre))))"
proof (cases "df = []")
  case True
  with assms show ?thesis by (auto simp: apply_filters_def)
next
  case False
  with assms have pre: "before_limit pd df filters = Some pre" by simp
  then obtain kvs where d: "filters = PDict kvs" using before_limit_dict by blast
  have a: "apply_filters pd df (PDict kvs) = map_option reset_index (limit_step (PDict kvs) pre)"
    using False pre d by (cases "limit_step (PDict kvs) pre") (simp_all add: apply_filters_def)
  show ?thesis
    unfolding d
    by (auto simp: a limit_step_unset limit_set_def limit_step_int petition_record_reset_index take_map)
qed

theorem limit_truncation_witness:
  "before_limit stable_pandas [nhs_petition, health_petition, fireworks_petition]
      (PDict [(''limit'', PInt 2)]) = Some [nhs_petition, fireworks_petition, health_petition]
   \<and> apply_filters stable_pandas [nhs_petition, health_petition, fireworks_petition]
      (PDict [(''limit'', PInt 2)]) = Some [nhs_petition, fireworks_petition]"
proof -
  have pre: "before_limit stable_pandas [nhs_petition, health_petition, fireworks_petition]
      (PDict [(''limit'', PInt 2)]) = Some [nhs_petition, fireworks_petition, health_petition]"
    by code_simp
  then have hyp: "(if [nhs_petition, health_petition, fireworks_petition] = []
      then Some [nhs_petition, health_petition, fireworks_petition]
      else before_limit stable_pandas [nhs_petition, health_petition, fireworks_petition]
             (PDict [(''limit'', PInt 2)])) = Some [nhs_petition, fireworks_petition, health_petition]"
    by simp
  have lim: "field (PDict [(''limit'', PInt 2)]) ''limit'' = PInt 2"
    by (simp add: field_def get_def)
  have re: "reset_index (take (nat 2) [nhs_petition, fireworks_petition, health_petition])
      = [nhs_petition, fireworks_petition]"
    by code_simp
  from limit_truncation [OF hyp] lim pre re show ?thesis by simp
qed

subsection \<open>Fields that do not filter\<close>

lemma map_of_del: "k' \<noteq> k \<Longrightarrow> map_of (filter (\<lambda>kv. fst kv \<noteq> k) kvs) k' = map_of kvs k'"
  by (induction kvs) auto

lemma map_of_del_same: "map_of (filter (\<lambda>kv. fst kv \<noteq> k) kvs) k = None"
  by (induction kvs) auto

lemma get_del_key: "k' \<noteq> k \<Longrightarrow> get (del_key k (PDict kvs)) k' = get (PDict kvs) k'"
  by (simp add: get_def del_key_def map_of_del)

lemma get_default_del_key:
  "k' \<noteq> k \<Longrightarrow> get_default (del_key k (PDict kvs)) k' d = get_default (PDict kvs) k' d"
  by (simp add: get_default_def del_key_def map_of_del)

lemma get_del_key_same: "get (del_key k (PDict kvs)) k = Some PNone"
  by (simp add: get_def del_key_def map_of_del_same)

lemma states_step_skipped:
  assumes "field (PDict kvs) ''states'' = PList [] \<or> \<not> is_list (field (PDict kvs) ''states'')"
  shows "states_step (PDict kvs) f = Some f"
  using assms by (auto simp: states_step_def get_dict)

lemma keywords_step_skipped:
  assumes "field (PDict kvs) ''keywords'' = PList [] \<or> \<not> is_list (field (PDict kvs) ''keywords'')"
  shows "keywords_step (PDict kvs) f = Some f"
  using assms by (auto simp: keywords_step_def get_dict)

lemma steps_del_states:
  "signature_min_step pd (del_key ''states'' (PDict kvs)) = signature_min_step pd (PDict kvs)"
  "signature_max_step pd (del_key ''states'' (PDict kvs)) = signature_max_step pd (PDict kvs)"
  "keywords_step (del_key ''states'' (PDict kvs)) = keywords_step (PDict kvs)"
  "sort_step pd (del_key ''states'' (PDict kvs)) = sort_step pd (PDict kvs)"
  "limit_step (del_key ''states'' (PDict kvs)) = limit_step (PDict kvs)"
  "states_step (del_key ''states'' (PDict kvs)) f = Some f"
  by (simp_all add: fun_eq_iff signature_min_step_def signature_max_step_def keywords_step_def
        sort_step_def limit_step_def states_step_def get_del_key get_default_del_key get_del_key_same)

lemma steps_del_keywords:
  "signature_min_step pd (del_key ''keywords'' (PDict kvs)) = signature_min_step pd (PDict kvs)"
  "signature_max_step pd (del_key ''keywords'' (PDict kvs)) = signature_max_step pd (PDict kvs)"
  "states_step (del_key ''keywords'' (PDict kvs)) = states_step (PDict kvs)"
  "sort_step pd (del_key ''keywords'' (PDict kvs)) = sort_step pd (PDict kvs)"
  "limit_step (del_key ''keywords'' (PDict kvs)) = limit_step (PDict kvs)"
  "keywords_step (del_key ''keywords'' (PDict kvs)) f = Some f"
  by (simp_all add: fun_eq_iff signature_min_step_def signature_max_step_def keywords_step_def
        sort_step_def limit_step_def states_step_def get_del_key get_default_del_key get_del_key_same)

text \<open>
  Claim C10. In a filter dictionary whose \<^verbatim>\<open>states\<close> field is the empty list or is not a
  list at all, the state step returns the frame it is given and does not raise, and
  \<^verbatim>\<open>apply_filters\<close> behaves exactly as on the dictionary without that key (in its result
  and in whether it raises); the same for \<^verbatim>\<open>keywords\<close>. This holds for every dataset,
  the non-empty ones included.
\<close>

theorem empty_or_non_list_is_no_filter:
  assumes "filters = PDict kvs"
  shows "((field filters ''states'' = PList [] \<or> \<not> is_list (field filters ''states'')) \<longrightarrow>
            states_step filters filtered_df = Some filtered_df \<and>
            apply_filters pd df filters = apply_filters pd df (del_key ''states'' filters))
       \<and> ((field filters ''keywords'' = PList [] \<or> \<not> is_list (field filters ''keywords'')) \<longrightarrow>
            keywords_step filters filtered_df = Some filtered_df \<and>
            apply_filters pd df filters = apply_filters pd df (del_key ''keywords'' filters))"
proof (intro conjI impI)
  assume s: "field filters ''states'' = PList [] \<or> \<not> is_list (field filters ''states'')"
  with assms show "states_step filters filtered_df = Some filtered_df"
    by (simp add: states_step_skipped)
  from s assms have "\<And>f. states_step (PDict kvs) f = Some f"
    by (simp add: states_step_skipped)
  then show "apply_filters pd df filters = apply_filters pd df (del_key ''states'' filters)"
    unfolding assms apply_filters_def before_limit_def before_sort_def
    by (simp add: steps_del_states)
next
  assume s: "field filters ''keywords'' = PList [] \<or> \<not> is_list (field filters ''keywords'')"
  with assms show "keywords_step filters filtered_df = Some filtered_df"
    by (simp add: keywords_step_skipped)
  from s assms have "\<And>f. keywords_step (PDict kvs) f = Some f"
    by (simp add: keywords_step_skipped)
  then show "apply_filters pd df filters = apply_filters pd df (del_key ''keywords'' filters)"
    unfolding assms apply_filters_def before_limit_def before_sort_def
    by (simp add: steps_del_keywords)
qed

theorem empty_or_non_list_is_no_filter_witness:
  "apply_filters stable_pandas [nhs_petition, health_petition, fireworks_petition]
      (PDict [(''states'', PList []), (''keywords'', PStr ''health'')])
     = Some [nhs_petition, fireworks_petition, health_petition]
   \<and> states_step (PDict [(''states'', PList []), (''keywords'', PStr ''health'')])
        [nhs_petition, health_petition, fireworks_petition]
     = Some [nhs_petition, health_petition, fireworks_petition]
   \<and> keywords_step (PDict [(''states'', PList []), (''keywords'', PStr ''health'')])
        [nhs_petition, health_petition, fireworks_petition]
     = Some [nhs_petition, health_petition, fireworks_petition]"
proof -
  let ?F = "PDict [(''states'', PList []), (''keywords'', PStr ''health'')]"
  have s: "field ?F ''states'' = PList [] \<or> \<not> is_list (field ?F ''states'')"
    by (simp add: field_def get_def)
  have k: "field ?F ''keywords'' = PList [] \<or> \<not> is_list (field ?F ''keywords'')"
    by (simp add: field_def get_def)
  have e: "apply_filters stable_pandas [nhs_petition, health_petition, fireworks_petition]
      (del_key ''states'' ?F) = Some [nhs_petition, fireworks_petition, health_petition]"
    by code_simp
  from empty_or_non_list_is_no_filter [OF refl, of "[(''states'', PList []), (''keywords'', PStr ''health'')]"
      "[nhs_petition, health_petition, fireworks_petition]" stable_pandas
      "[nhs_petition, health_petition, fireworks_petition]"] s k e
  show ?thesis by simp
qed

subsection \<open>The filtering steps on a well-typed filter dictionary\<close>

lemma sort_step_dict:
  "sort_step pd (PDict kvs) f =
     Some (if names_order (sort_by_of (PDict kvs))
           then sort_by_column pd (sort_by_of (PDict kvs)) f else f)"
  by (simp add: sort_step_def sort_by_of_def get_default_def split: option.splits)

lemma mset_sort_by_column: "sort_values_ok pd \<Longrightarrow> mset (sort_by_column pd c f) = mset f"
  by (simp add: sort_by_column_def mset_sort_values)

lemma mset_sort_step_dict:
  "sort_values_ok pd \<Longrightarrow> sort_step pd (PDict kvs) f = Some f' \<Longrightarrow> mset f' = mset f"
  unfolding sort_step_dict by (auto simp: mset_sort_by_column split: if_splits)

lemma signature_min_step_int:
  "field (PDict kvs) ''signature_min'' = PInt m \<Longrightarrow>
     signature_min_step pd (PDict kvs) f = Some (filter (\<lambda>r. m \<le> Signatures_Count r) f)"
  by (simp add: signature_min_step_def get_dict at_least_int)

lemma signature_max_step_int:
  "field (PDict kvs) ''signature_max'' = PInt M \<Longrightarrow>
     signature_max_step pd (PDict kvs) f = Some (filter (\<lambda>r. Signatures_Count r \<le> M) f)"
  by (simp add: signature_max_step_def get_dict at_most_int)

lemma states_step_text:
  assumes "text_list (field (PDict kvs) ''states'')"
  shows "states_step (PDict kvs) f = Some (filter (passes_states (field (PDict kvs) ''states'')) f)"
proof (cases "truthy (field (PDict kvs) ''states'') \<and> is_list (field (PDict kvs) ''states'')")
  case False
  then have "passes_states (field (PDict kvs) ''states'') = (\<lambda>r. True)"
    by (auto simp: passes_states_def fun_eq_iff)
  with False show ?thesis by (auto simp: states_step_def get_dict)
next
  case True
  from assms have "state_isin (items (field (PDict kvs) ''states'')) f \<noteq> None"
    unfolding text_list_def by (rule state_isin_defined)
  then obtain out where o: "state_isin (items (field (PDict kvs) ''states'')) f = Some out"
    by blast
  have "passes_states (field (PDict kvs) ''states'') =
      (\<lambda>r. list_ex (\<lambda>x. str_lower x = Some (lower (State r))) (items (field (PDict kvs) ''states'')))"
    using True by (simp add: passes_states_def fun_eq_iff)
  with state_isin_Some [OF o] o True show ?thesis
    by (simp add: states_step_def get_dict)
qed

lemma keywords_step_text:
  assumes "text_list (field (PDict kvs) ''keywords'')"
  shows "keywords_step (PDict kvs) f = Some (filter (passes_keywords (field (PDict kvs) ''keywords'')) f)"
proof (cases "truthy (field (PDict kvs) ''keywords'') \<and> is_list (field (PDict kvs) ''keywords'')")
  case False
  then have "passes_keywords (field (PDict kvs) ''keywords'') = (\<lambda>r. True)"
    by (auto simp: passes_keywords_def fun_eq_iff)
  with False show ?thesis by (auto simp: keywords_step_def get_dict)
next
  case True
  from assms have "title_contains (items (field (PDict kvs) ''keywords'')) f \<noteq> None"
    unfolding text_list_def by (rule title_contains_defined)
  then obtain out where o: "title_contains (items (field (PDict kvs) ''keywords'')) f = Some out"
    by blast
  have "passes_keywords (field (PDict kvs) ''keywords'') =
      (\<lambda>r. list_ex (\<lambda>x. case x of PStr t \<Rightarrow> contains_nocase (Petition r) t | _ \<Rightarrow> False)
              (items (field (PDict kvs) ''keywords'')))"
    using True by (simp add: passes_keywords_def fun_eq_iff)
  with title_contains_Some [OF o] o True show ?thesis
    by (simp add: keywords_step_def get_dict)
qed

lemma before_sort_range:
  assumes mn: "field (PDict kvs) ''signature_min'' = PInt m"
    and mx: "field (PDict kvs) ''signature_max'' = PInt M"
    and st: "text_list (field (PDict kvs) ''states'')"
    and kw: "text_list (field (PDict kvs) ''keywords'')"
  shows "before_sort pd df (PDict kvs) =
     Some (filter (\<lambda>r. m \<le> Signatures_Count r \<and> Signatures_Count r \<le> M \<and>
                       passes_states (field (PDict kvs) ''states'') r \<and>
                       passes_keywords (field (PDict kvs) ''keywords'') r) df)"
proof -
  have "filter (passes_keywords (field (PDict kvs) ''keywords''))
          (filter (passes_states (field (PDict kvs) ''states''))
             (filter (\<lambda>r. Signatures_Count r \<le> M) (filter (\<lambda>r. m \<le> Signatures_Count r) df)))
      = filter (\<lambda>r. m \<le> Signatures_Count r \<and> Signatures_Count r \<le> M \<and>
                       passes_states (field (PDict kvs) ''states'') r \<and>
                       passes_keywords (field (PDict kvs) ''keywords'') r) df"
    unfolding filter_filter by (rule filter_cong [OF refl]) blast
  then show ?thesis
    by (simp only: before_sort_def signature_min_step_int [OF mn] signature_max_step_int [OF mx]
          states_step_text [OF st] keywords_step_text [OF kw] bind.bind_lunit)
qed

text \<open>
  Claim C4, as the code has it. For a filter dictionary with \<^verbatim>\<open>signature_min = m\<close> and
  \<^verbatim>\<open>signature_max = M\<close> (\<open>m \<le> M\<close>), whose \<^verbatim>\<open>states\<close> and \<^verbatim>\<open>keywords\<close> hold no
  element that is not text, and which sets no limit (\<^verbatim>\<open>limit\<close> absent, null, or not a
  positive integer), \<^verbatim>\<open>apply_filters\<close> returns, and the records it returns are exactly
  the input records with \<open>m \<le> signatures \<le> M\<close> that pass the state and keyword filters
  of the dictionary: the same records, each as often (and so the same set of records).
  A record is a row without its index label, which the result renumbers.
\<close>

theorem signature_range_selection:
  assumes "sort_values_ok pd" and "filters = PDict kvs"
    and "field filters ''signature_min'' = PInt m"
    and "field filters ''signature_max'' = PInt M" and "m \<le> M"
    and "text_list (field filters ''states'')" and "text_list (field filters ''keywords'')"
    and "\<not> limit_set (field filters ''limit'')"
  shows "\<exists>out. apply_filters pd df filters = Some out \<and>
           mset (map petition_record out) =
             mset (map petition_record
               (filter (\<lambda>r. m \<le> Signatures_Count r \<and> Signatures_Count r \<le> M \<and>
                             passes_states (field filters ''states'') r \<and>
                             passes_keywords (field filters ''keywords'') r) df)) \<and>
           petition_record ` set out =
             petition_record ` {r \<in> set df. m \<le> Signatures_Count r \<and> Signatures_Count r \<le> M \<and>
                                  passes_states (field filters ''states'') r \<and>
                                  passes_keywords (field filters ''keywords'') r}"
proof -
  define P where "P = (\<lambda>r. m \<le> Signatures_Count r \<and> Signatures_Count r \<le> M \<and>
                       passes_states (field (PDict kvs) ''states'') r \<and>
                       passes_keywords (field (PDict kvs) ''keywords'') r)"
  have mn: "field (PDict kvs) ''signature_min'' = PInt m" using assms(2,3) by simp
  have mx: "field (PDict kvs) ''signature_max'' = PInt M" using assms(2,4) by simp
  have st: "text_list (field (PDict kvs) ''states'')" using assms(2,6) by simp
  have kw: "text_list (field (PDict kvs) ''keywords'')" using assms(2,7) by simp
  have lm: "\<not> limit_set (field (PDict kvs) ''limit'')" using assms(2,8) by simp
  have "\<exists>out. apply_filters pd df (PDict kvs) = Some out \<and>
           mset (map petition_record out) = mset (map petition_record (filter P df))"
  proof (cases "df = []")
    case True
    then show ?thesis by (simp add: apply_filters_def)
  next
    case False
    have bs: "before_sort pd df (PDict kvs) = Some (filter P df)"
      unfolding P_def by (rule before_sort_range [OF mn mx st kw])
    obtain f5 where f5: "sort_step pd (PDict kvs) (filter P df) = Some f5"
      by (simp add: sort_step_dict)
    have m5: "mset f5 = mset (filter P df)"
      by (rule mset_sort_step_dict [OF assms(1) f5])
    have bl: "before_limit pd df (PDict kvs) = Some f5"
      by (simp add: before_limit_def bs f5)
    have a: "apply_filters pd df (PDict kvs) = Some (reset_index f5)"
      using False by (simp add: apply_filters_def bl limit_step_unset [OF lm])
    have "mset (map petition_record (reset_index f5)) = mset (map petition_record f5)"
      by (simp only: petition_record_reset_index)
    also have "\<dots> = mset (map petition_record (filter P df))"
      using m5 by (metis mset_map)
    finally show ?thesis using a by blast
  qed
  then obtain out where a: "apply_filters pd df (PDict kvs) = Some out"
    and m: "mset (map petition_record out) = mset (map petition_record (filter P df))"
    by blast
  from m have "set (map petition_record out) = set (map petition_record (filter P df))"
    by (rule mset_eq_setD)
  then have s: "petition_record ` set out = petition_record ` {r \<in> set df. P r}"
    by simp
  from a m s show ?thesis unfolding assms(2) P_def by blast
qed

theorem signature_range_selection_witness:
  "sort_values_ok stable_pandas \<and> (50000::int) \<le> 200000 \<and>
   (\<exists>out. apply_filters stable_pandas [nhs_petition, health_petition, fireworks_petition]
             (PDict [(''signature_min'', PInt 50000), (''signature_max'', PInt 200000),
                     (''states'', PList [PStr ''CLOSED''])]) = Some out
          \<and> petition_record ` set out = {petition_record nhs_petition})"
proof -
  let ?kvs = "[(''signature_min'', PInt 50000), (''signature_max'', PInt 200000),
               (''states'', PList [PStr ''CLOSED''])]"
  let ?df = "[nhs_petition, health_petition, fireworks_petition]"
  let ?P = "\<lambda>r. 50000 \<le> Signatures_Count r \<and> Signatures_Count r \<le> 200000 \<and>
                 passes_states (field (PDict ?kvs) ''states'') r \<and>
                 passes_keywords (field (PDict ?kvs) ''keywords'') r"
  have h: "field (PDict ?kvs) ''signature_min'' = PInt 50000"
    "field (PDict ?kvs) ''signature_max'' = PInt 200000"
    "text_list (field (PDict ?kvs) ''states'')"
    "text_list (field (PDict ?kvs) ''keywords'')"
    "\<not> limit_set (field (PDict ?kvs) ''limit'')"
    by code_simp+
  have p: "?P nhs_petition" "\<not> ?P health_petition" "\<not> ?P fireworks_petition"
    by code_simp+
  have rhs: "{r \<in> set ?df. ?P r} = {nhs_petition}"
    using p by auto
  from signature_range_selection [OF stable_pandas_ok refl h(1) h(2) _ h(3) h(4) h(5), of ?df]
  obtain out where a: "apply_filters stable_pandas ?df (PDict ?kvs) = Some out"
    and s: "petition_record ` set out = petition_record ` {r \<in> set ?df. ?P r}"
    by auto
  from s have "petition_record ` set out = {petition_record nhs_petition}"
    unfolding rhs by simp
  with a stable_pandas_ok show ?thesis by simp
qed

text \<open>
  Claim C4 as the specification states it, for every filter specification, fails when
  the specification also sets a limit: the limit step cuts records that are in range.
\<close>

theorem signature_range_selection_counterexample:
  "apply_filters stable_pandas [nhs_petition, health_petition]
      (PDict [(''signature_min'', PInt 0), (''signature_max'', PInt 200000), (''limit'', PInt 1)])
     = Some [nhs_petition]
   \<and> 0 \<le> Signatures_Count health_petition \<and> Signatures_Count health_petition \<le> 200000
   \<and> health_petition \<in> set [nhs_petition, health_petition]
   \<and> petition_record health_petition \<notin> petition_record ` set [nhs_petition]"
  by code_simp

subsection \<open>The query interpreter\<close>

lemma apply_filters_no_filters:
  "apply_filters pd df (PDict []) =
     Some (if df = [] then df else reset_index (sort_values pd by_signatures_desc df))"
  by (simp add: apply_filters_def before_limit_def before_sort_def signature_min_step_def
        signature_max_step_def states_step_def keywords_step_def sort_step_def limit_step_def
        get_def get_default_def names_order_def sort_by_column_def)

lemma lower_closed_query: "lower closed_query = ''closed petitions''"
  by code_simp

lemma before_return_closed:
  "fst (before_return pd closed_query df) =
     sort_values pd by_signatures_desc (filter (\<lambda>r. lower (State r) = ''closed'') df)"
  by (simp add: before_return_def lower_closed_query signature_keywords_def
        topic_keywords_def state_step_def Let_def)

text \<open>
  Claim C2, as the code has it. When the model's reply decodes to a dictionary without
  the key \<^verbatim>\<open>filters\<close>, the interpreter does not raise and does not go to the fallback:
  \<^verbatim>\<open>ai_response.get('filters', {})\<close> supplies the empty dictionary, \<^verbatim>\<open>apply_filters\<close>
  runs on it (every row, sorted by signatures, descending, the index renumbered), the
  analysis is the one of the primary path, which returns on such a frame, the reply is
  kept in \<^verbatim>\<open>raw_ai_response\<close> and the bundle carries no error note.
\<close>

theorem missing_filters_key:
  assumes "map_of kvs ''filters'' = None"
  shows "\<exists>a. generate_analysis areply
                (if df = [] then df else reset_index (sort_values pd by_signatures_desc df)) = Some a
    \<and> process_natural_language_query pd (Content (PDict kvs)) areply query df =
       Some \<lparr> interpretation_text =
                (case map_of kvs ''interpretation'' of None \<Rightarrow> PStr ''Query processed'' | Some v \<Rightarrow> v),
              filtered_data = (if df = [] then df else reset_index (sort_values pd by_signatures_desc df)),
              analysis = a,
              raw_ai_response = Some (PDict kvs), error = False \<rparr>"
proof -
  define out where "out = (if df = [] then df else reset_index (sort_values pd by_signatures_desc df))"
  have "distinct (map Index out)"
    unfolding out_def by (simp add: distinct_reset_index)
  from generate_analysis_returns [OF this] obtain a where a: "generate_analysis areply out = Some a"
    by blast
  have "process_natural_language_query pd (Content (PDict kvs)) areply query df =
       Some \<lparr> interpretation_text =
                (case map_of kvs ''interpretation'' of None \<Rightarrow> PStr ''Query processed'' | Some v \<Rightarrow> v),
              filtered_data = out, analysis = a,
              raw_ai_response = Some (PDict kvs), error = False \<rparr>"
    using assms a
    by (simp add: process_natural_language_query_def try_block_def get_default_def
          apply_filters_no_filters out_def split: option.splits)
  with a show ?thesis unfolding out_def by blast
qed

theorem missing_filters_key_witness:
  "map_of [(''interpretation'', PStr ''All petitions'')] ''filters'' = None \<and>
   process_natural_language_query stable_pandas
      (Content (PDict [(''interpretation'', PStr ''All petitions'')]))
      (Analysis_content (Some ''One open petition.'')) closed_query [fireworks_petition] =
    Some \<lparr> interpretation_text = PStr ''All petitions'',
           filtered_data = [fireworks_petition \<lparr> Index := 0 \<rparr>],
           analysis = Text ''One open petition.'',
           raw_ai_response = Some (PDict [(''interpretation'', PStr ''All petitions'')]),
           error = False \<rparr>"
proof -
  have h: "map_of [(''interpretation'', PStr ''All petitions'')] ''filters'' = None"
    by simp
  have ss: "sort_values stable_pandas by_signatures_desc [fireworks_petition] = [fireworks_petition]"
    by (simp add: stable_sort_def)
  have s: "reset_index [fireworks_petition] = [fireworks_petition \<lparr> Index := 0 \<rparr>]"
    by (simp add: reset_index_def enumerate_eq_zip)
  from missing_filters_key [OF h, of "Analysis_content (Some ''One open petition.'')"
      "[fireworks_petition]" stable_pandas closed_query, unfolded ss s] h
  show ?thesis by (auto simp: generate_analysis_def)
qed

text \<open>
  Claim C2 as the specification states it (the bundle comes from the fallback
  interpreter) fails: for the query \<^verbatim>\<open>closed petitions\<close> on a dataset of one open
  petition, the fallback interpreter returns no row, but the interpreter returns the
  petition, without an error note.
\<close>

theorem missing_filters_key_counterexample:
  "map_option filtered_data (process_natural_language_query stable_pandas
      (Content (PDict [(''interpretation'', PStr ''All petitions'')]))
      Analysis_call_raises closed_query [fireworks_petition])
     = Some [fireworks_petition \<lparr> Index := 0 \<rparr>]
   \<and> map_option error (process_natural_language_query stable_pandas
      (Content (PDict [(''interpretation'', PStr ''All petitions'')]))
      Analysis_call_raises closed_query [fireworks_petition]) = Some False
   \<and> map_option filtered_data
        (fallback_query_processing stable_pandas closed_query [fireworks_petition]) = Some []"
proof -
  have t: "try_block stable_pandas (Content (PDict [(''interpretation'', PStr ''All petitions'')]))
      Analysis_call_raises [fireworks_petition] =
      Some \<lparr> interpretation_text = PStr ''All petitions'',
             filtered_data = [fireworks_petition \<lparr> Index := 0 \<rparr>],
             analysis = Report 1 120000 ''Ban fireworks'' 120000 Notable_interest,
             raw_ai_response = Some (PDict [(''interpretation'', PStr ''All petitions'')]),
             error = False \<rparr>"
    by code_simp
  have st: "lower (State fireworks_petition) \<noteq> ''closed''"
    by code_simp
  have "fst (before_return stable_pandas closed_query [fireworks_petition]) = []"
    using st by (simp add: before_return_closed stable_sort_def)
  then have f: "map_option filtered_data
        (fallback_query_processing stable_pandas closed_query [fireworks_petition]) = Some []"
    by (simp add: fallback_unfold generate_basic_analysis_def)
  from t f show ?thesis by (simp add: process_natural_language_query_def)
qed

subsection \<open>Failure of the model call or of the handling of its reply\<close>

lemma apply_filters_distinct:
  "apply_filters pd df filters = Some out \<Longrightarrow> distinct (map Index out)"
  by (auto simp: apply_filters_def distinct_reset_index split: if_splits Option.bind_splits)

lemma try_block_raises:
  "try_block pd Call_raises areply df = None"
  "try_block pd Content_missing areply df = None"
  "try_block pd Content_invalid areply df = None"
  "\<not> is_dict v \<Longrightarrow> try_block pd (Content v) areply df = None"
  by (cases v; simp add: try_block_def get_default_def)+

lemma try_block_returns:
  assumes "apply_filters pd df (case map_of kvs ''filters'' of None \<Rightarrow> PDict [] | Some f \<Rightarrow> f) = Some out"
  shows "\<exists>b. try_block pd (Content (PDict kvs)) areply df = Some b"
proof -
  from generate_analysis_returns [OF apply_filters_distinct [OF assms]]
  obtain a where "generate_analysis areply out = Some a" by blast
  with assms show ?thesis
    by (simp add: try_block_def get_default_def split: option.splits)
qed

lemma try_block_None_iff:
  "try_block pd reply areply df = None \<longleftrightarrow>
     (reply = Call_raises \<or> reply = Content_missing \<or> reply = Content_invalid
      \<or> (\<exists>v. reply = Content v \<and> \<not> is_dict v)
      \<or> (\<exists>v f. reply = Content v \<and> get_default v ''filters'' (PDict []) = Some f
             \<and> apply_filters pd df f = None))"
proof (cases reply)
  case (Content v)
  show ?thesis
  proof (cases v)
    case (PDict kvs)
    define f where "f = (case map_of kvs ''filters'' of None \<Rightarrow> PDict [] | Some f \<Rightarrow> f)"
    have g: "get_default v ''filters'' (PDict []) = Some f"
      by (simp add: PDict get_default_def f_def split: option.splits)
    show ?thesis
    proof (cases "apply_filters pd df f")
      case None
      then have "try_block pd reply areply df = None"
        by (simp add: Content try_block_def g)
      with None g Content show ?thesis by blast
    next
      case (Some out)
      from try_block_returns [OF Some [unfolded f_def], of areply]
      have "try_block pd reply areply df \<noteq> None" by (auto simp: Content PDict)
      with Some g Content PDict show ?thesis by auto
    qed
  qed (simp_all add: Content try_block_raises)
qed (simp_all add: try_block_raises)

lemma try_block_no_error: "try_block pd reply areply df = Some b \<Longrightarrow> \<not> error b"
  by (auto simp: try_block_def split: model_reply.splits Option.bind_splits)

lemma fallback_analysis:
  assumes "sort_values_ok pd" and "distinct (map Index df)"
    and "fallback_query_processing pd query df = Some result"
  shows "analysis result =
     (case filtered_data result of
        [] \<Rightarrow> Text ''No petitions found matching your criteria.''
      | r # rs \<Rightarrow>
          Report (length (filtered_data result))
            (int64 (sum_list (map Signatures_Count (filtered_data result))))
            (take 100 (Petition r)) (Signatures_Count r)
            (if int64 (sum_list (map Signatures_Count (filtered_data result))) > 1000000
             then Highly_successful
             else if int64 (sum_list (map Signatures_Count (filtered_data result))) > 100000
             then Notable_interest
             else Niche_concerns))"
proof -
  define f where "f = fst (before_return pd query df)"
  have fd: "filtered_data result = f"
    unfolding f_def by (rule fallback_filtered_data [OF assms(3)])
  have a: "generate_basic_analysis f = Some (analysis result)"
    using assms(3) by (auto simp: fallback_unfold f_def)
  have d: "distinct (map Index f)"
    unfolding f_def by (rule before_return_distinct [OF assms(1,2)])
  have s: "sorted_wrt by_signatures_desc f"
    unfolding f_def by (rule before_return_sorted [OF assms(1)])
  show ?thesis
  proof (cases f)
    case Nil
    with a fd show ?thesis by (simp add: generate_basic_analysis_def)
  next
    case (Cons r rs)
    from generate_basic_analysis_sorted [OF d [unfolded Cons] s [unfolded Cons]] a
    show ?thesis unfolding fd Cons by simp
  qed
qed

text \<open>
  Claim C8. A dataset is well formed when its index labels are distinct, as the loader
  leaves them. On such a dataset \<^verbatim>\<open>process_natural_language_query\<close> returns a bundle
  for every query, every reply of the model and every outcome of the second call. The
  body of its \<^verbatim>\<open>try\<close> raises exactly when the call raises, when the reply has no
  content or does not decode, when it decodes to something that is not a dictionary, or
  when \<^verbatim>\<open>apply_filters\<close> raises on the filters of the reply. (A failure of the second
  call, the one for the narrative, is handled inside \<^verbatim>\<open>generate_analysis\<close> and is not a
  failure of the body.) When the body raises, the bundle returned is the one of the
  fallback interpreter with the error note added. Its rows are rows of the dataset, no
  row more often than the dataset has it, in an order of descending counts. Its analysis
  is the fixed sentence when there is no row, and otherwise the report on those rows:
  their number, the sum of their counts (as an int64), the title (cut at 100 characters)
  and the count of the first row, which has the largest count, and the remark chosen by
  the sum. Its interpretation is text and it holds no raw reply. When the body does not
  raise, its bundle is returned, without an error note.
\<close>

theorem failure_returns_fallback_bundle:
  assumes "sort_values_ok pd" and "distinct (map Index df)"
  shows "\<exists>result. process_natural_language_query pd reply areply query df = Some result
       \<and> (try_block pd reply areply df = None \<longrightarrow>
            error result
          \<and> fallback_query_processing pd query df = Some (result \<lparr> error := False \<rparr>)
          \<and> mset (filtered_data result) \<subseteq># mset df
          \<and> sorted_wrt by_signatures_desc (filtered_data result)
          \<and> analysis result =
              (case filtered_data result of
                 [] \<Rightarrow> Text ''No petitions found matching your criteria.''
               | r # rs \<Rightarrow>
                   Report (length (filtered_data result))
                     (int64 (sum_list (map Signatures_Count (filtered_data result))))
                     (take 100 (Petition r)) (Signatures_Count r)
                     (if int64 (sum_list (map Signatures_Count (filtered_data result))) > 1000000
                      then Highly_successful
                      else if int64 (sum_list (map Signatures_Count (filtered_data result))) > 100000
                      then Notable_interest
                      else Niche_concerns))
          \<and> (\<exists>s. interpretation_text result = PStr s)
          \<and> raw_ai_response result = None)
       \<and> (\<forall>b. try_block pd reply areply df = Some b \<longrightarrow> result = b \<and> \<not> error result)
       \<and> (try_block pd reply areply df = None \<longleftrightarrow>
            reply = Call_raises \<or> reply = Content_missing \<or> reply = Content_invalid
            \<or> (\<exists>v. reply = Content v \<and> \<not> is_dict v)
            \<or> (\<exists>v f. reply = Content v \<and> get_default v ''filters'' (PDict []) = Some f
                   \<and> apply_filters pd df f = None))"
proof (cases "try_block pd reply areply df")
  case (Some b)
  then have "process_natural_language_query pd reply areply query df = Some b"
    by (simp add: process_natural_language_query_def)
  with Some try_block_no_error [OF Some] try_block_None_iff [of pd reply areply df]
  show ?thesis by simp
next
  case None
  from fallback_returns [OF before_return_distinct [OF assms]]
  obtain fb where fb: "fallback_query_processing pd query df = Some fb" by blast
  define result where "result = fb \<lparr> error := True \<rparr>"
  have p: "process_natural_language_query pd reply areply query df = Some result"
    by (simp add: process_natural_language_query_def None fb result_def)
  have e: "error fb = False" "raw_ai_response fb = None" "\<exists>s. interpretation_text fb = PStr s"
    using fb by (auto simp: fallback_unfold)
  have r0: "result \<lparr> error := False \<rparr> = fb"
    using e(1) by (simp add: result_def)
  have fd: "filtered_data result = filtered_data fb" by (simp add: result_def)
  have an: "analysis result = analysis fb" by (simp add: result_def)
  have sub: "mset (filtered_data result) \<subseteq># mset df"
    unfolding fd fallback_filtered_data [OF fb] by (rule before_return_subset [OF assms(1)])
  have so: "sorted_wrt by_signatures_desc (filtered_data result)"
    unfolding fd fallback_filtered_data [OF fb] by (rule before_return_sorted [OF assms(1)])
  note a = fallback_analysis [OF assms fb, folded fd an]
  have i: "\<exists>s. interpretation_text result = PStr s" "raw_ai_response result = None" "error result"
    using e by (simp_all add: result_def)
  from p None fb r0 sub so a i try_block_None_iff [of pd reply areply df]
  show ?thesis by (intro exI [of _ result]) simp
qed

lemma before_return_closed_sample:
  "before_return stable_pandas closed_query [nhs_petition, fireworks_petition] =
     ([nhs_petition],
      ''Processed query using keyword matching: '' @ [CHR 0x27] @ ''closed petitions'' @ [CHR 0x27]
        @ '' (filtered for closed petitions)'')"
proof -
  have st: "lower (State nhs_petition) = ''closed''" "lower (State fireworks_petition) \<noteq> ''closed''"
    by code_simp+
  have q: "closed_query = ''closed petitions''" by (simp add: closed_query_def)
  show ?thesis
    using st
    by (simp add: before_return_def lower_closed_query signature_keywords_def
          topic_keywords_def state_step_def Let_def stable_sort_def)
       (simp add: q)
qed

theorem failure_returns_fallback_bundle_witness:
  "sort_values_ok stable_pandas \<and>
   distinct (map Index [nhs_petition, fireworks_petition]) \<and>
   try_block stable_pandas
      (Content (PDict [(''filters'', PDict [(''states'', PList [PInt 5])])]))
      Analysis_call_raises [nhs_petition, fireworks_petition] = None \<and>
   process_natural_language_query stable_pandas
      (Content (PDict [(''filters'', PDict [(''states'', PList [PInt 5])])]))
      Analysis_call_raises closed_query [nhs_petition, fireworks_petition] =
     Some \<lparr> interpretation_text = PStr (''Processed query using keyword matching: '' @ [CHR 0x27]
                @ ''closed petitions'' @ [CHR 0x27] @ '' (filtered for closed petitions)''),
            filtered_data = [nhs_petition],
            analysis = Report 1 120000 ''Fund the NHS properly'' 120000 Notable_interest,
            raw_ai_response = None, error = True \<rparr>"
proof -
  let ?R = "Content (PDict [(''filters'', PDict [(''states'', PList [PInt 5])])])"
  let ?df = "[nhs_petition, fireworks_petition]"
  have n: "try_block stable_pandas ?R Analysis_call_raises ?df = None"
    by code_simp
  have g: "generate_basic_analysis [nhs_petition] =
      Some (Report 1 120000 ''Fund the NHS properly'' 120000 Notable_interest)"
    by code_simp
  have f: "fallback_query_processing stable_pandas closed_query ?df =
     Some \<lparr> interpretation_text = PStr (''Processed query using keyword matching: '' @ [CHR 0x27]
                @ ''closed petitions'' @ [CHR 0x27] @ '' (filtered for closed petitions)''),
            filtered_data = [nhs_petition],
            analysis = Report 1 120000 ''Fund the NHS properly'' 120000 Notable_interest,
            raw_ai_response = None, error = False \<rparr>"
    by (simp add: fallback_unfold before_return_closed_sample g)
  have c: "process_natural_language_query stable_pandas ?R Analysis_call_raises closed_query ?df =
     Some \<lparr> interpretation_text = PStr (''Processed query using keyword matching: '' @ [CHR 0x27]
                @ ''closed petitions'' @ [CHR 0x27] @ '' (filtered for closed petitions)''),
            filtered_data = [nhs_petition],
            analysis = Report 1 120000 ''Fund the NHS properly'' 120000 Notable_interest,
            raw_ai_response = None, error = True \<rparr>"
    by (simp add: process_natural_language_query_def n f)
  from failure_returns_fallback_bundle [OF stable_pandas_ok sample_labels(2), of ?R
      Analysis_call_raises closed_query]
  obtain result where p: "process_natural_language_query stable_pandas ?R Analysis_call_raises
      closed_query ?df = Some result"
    and t: "try_block stable_pandas ?R Analysis_call_raises ?df = None \<longrightarrow>
       error result \<and> fallback_query_processing stable_pandas closed_query ?df
          = Some (result \<lparr> error := False \<rparr>) \<and>
       mset (filtered_data result) \<subseteq># mset ?df \<and>
       sorted_wrt by_signatures_desc (filtered_data result) \<and>
       analysis result =
              (case filtered_data result of
                 [] \<Rightarrow> Text ''No petitions found matching your criteria.''
               | r # rs \<Rightarrow>
                   Report (length (filtered_data result))
                     (int64 (sum_list (map Signatures_Count (filtered_data result))))
                     (take 100 (Petition r)) (Signatures_Count r)
                     (if int64 (sum_list (map Signatures_Count (filtered_data result))) > 1000000
                      then Highly_successful
                      else if int64 (sum_list (map Signatures_Count (filtered_data result))) > 100000
                      then Notable_interest
                      else Niche_concerns))
          \<and> (\<exists>s. interpretation_text result = PStr s)
          \<and> raw_ai_response result = None"
    by (elim exE conjE) (rule that)
  from t n have "error result" by (elim impE conjE)
  with p c n stable_pandas_ok sample_labels(2) show ?thesis by simp
qed

text \<open>
  The condition on the labels is needed: when two rows of the dataset carry the same
  label and the most signed row of the fallback's result is one of them, the lookup in
  \<^verbatim>\<open>generate_basic_analysis\<close> gives a frame, the report cannot be written, and the
  exception leaves the handler.
\<close>

lemma duplicate_labels_raise:
  "try_block stable_pandas Call_raises areply [nhs_petition, nhs_petition] = None"
  "generate_basic_analysis [nhs_petition, nhs_petition] = None"
  "process_natural_language_query stable_pandas Call_raises areply closed_query
      [nhs_petition, nhs_petition] = None"
proof -
  show "try_block stable_pandas Call_raises areply [nhs_petition, nhs_petition] = None"
    by (simp add: try_block_def)
  show g: "generate_basic_analysis [nhs_petition, nhs_petition] = None"
    by code_simp
  have st: "lower (State nhs_petition) = ''closed''" by code_simp
  have "fst (before_return stable_pandas closed_query [nhs_petition, nhs_petition])
      = [nhs_petition, nhs_petition]"
    using st by (simp add: before_return_closed stable_sort_def by_signatures_desc_def)
  then show "process_natural_language_query stable_pandas Call_raises areply closed_query
      [nhs_petition, nhs_petition] = None"
    by (simp add: process_natural_language_query_def try_block_def fallback_unfold g)
qed

subsection \<open>The frame that is passed in\<close>
































end
